theory Spec2Isabelle
  imports Complex_Main
begin

section \<open>The result cache (class LRUCache of utils/api.ts)\<close>

text \<open>
  A JavaScript \<open>Map\<close> iterates its keys in insertion order, holds every key once,
  keeps the position of a key whose value is overwritten and forgets the position of a
  deleted key. It is modelled as an association list in iteration order.
\<close>

record 'a CacheEntry =
  data :: 'a
  timestamp :: int
  version :: string

type_synonym 'a js_map = "(string \<times> 'a) list"

definition map_keys :: "'a js_map \<Rightarrow> string list" where
  "map_keys m = map fst m"

definition map_get :: "'a js_map \<Rightarrow> string \<Rightarrow> 'a option" where
  "map_get m k = map_of m k"

definition map_delete :: "string \<Rightarrow> 'a js_map \<Rightarrow> 'a js_map" where
  "map_delete k m = filter (\<lambda>p. fst p \<noteq> k) m"

fun map_put :: "string \<Rightarrow> 'a \<Rightarrow> 'a js_map \<Rightarrow> 'a js_map" where
  "map_put k v [] = [(k, v)]"
| "map_put k v (p # m) = (if fst p = k then (k, v) # m else p # map_put k v m)"

record 'a LRUCache =
  cache :: "'a CacheEntry js_map"
  maxSize :: nat

definition new_LRUCache :: "nat \<Rightarrow> 'a LRUCache" where
  "new_LRUCache n = \<lparr>cache = [], maxSize = n\<rparr>"

text \<open>
  \<open>set(key, value)\<close>: at capacity the first key of the iteration order is deleted,
  unless there is none or it is the empty string (the source tests \<open>if (firstKey)\<close>,
  which is false for both); then the entry is written with the clock reading \<open>now\<close> and
  the live version \<open>ver\<close> (\<open>CONFIG.CACHE.VERSION\<close>).
\<close>

definition cache_set :: "string \<Rightarrow> int \<Rightarrow> string \<Rightarrow> 'a \<Rightarrow> 'a LRUCache \<Rightarrow> 'a LRUCache" where
  "cache_set ver now key val c =
     (let m = (if maxSize c \<le> length (cache c)
               then (case map_keys (cache c) of
                       [] \<Rightarrow> cache c
                     | firstKey # _ \<Rightarrow>
                         if firstKey \<noteq> [] then map_delete firstKey (cache c) else cache c)
               else cache c)
      in c\<lparr>cache := map_put key \<lparr>data = val, timestamp = now, version = ver\<rparr> m\<rparr>)"

text \<open>
  \<open>get(key)\<close>: an entry of another version is deleted and reported absent; an
  entry of the live version is deleted and written again, which moves it to the end of
  the iteration order, and is returned.
\<close>

definition cache_get :: "string \<Rightarrow> string \<Rightarrow> 'a LRUCache \<Rightarrow> 'a CacheEntry option \<times> 'a LRUCache" where
  "cache_get ver key c =
     (case map_get (cache c) key of
        None \<Rightarrow> (None, c)
      | Some entry \<Rightarrow>
          if version entry \<noteq> ver
          then (None, c\<lparr>cache := map_delete key (cache c)\<rparr>)
          else (Some entry, c\<lparr>cache := map_put key entry (map_delete key (cache c))\<rparr>))"

definition cache_clear :: "'a LRUCache \<Rightarrow> 'a LRUCache" where
  "cache_clear c = c\<lparr>cache := []\<rparr>"

definition CACHE_DURATION :: int where
  "CACHE_DURATION = 5 * 60 * 1000"

definition isCacheValid :: "int \<Rightarrow> int \<Rightarrow> bool" where
  "isCacheValid now ts = (now - ts < CACHE_DURATION)"

section \<open>Configuration (config/constants.ts)\<close>

definition BASE_URL :: string where
  "BASE_URL = ''https://api.weatherapi.com/v1''"

definition RATE_LIMIT :: nat where
  "RATE_LIMIT = 30"

definition MIN_QUERY_LENGTH :: nat where
  "MIN_QUERY_LENGTH = 2"

definition MONTHLY_LIMIT :: int where
  "MONTHLY_LIMIT = 1000000"

definition MAX_SIZE :: nat where
  "MAX_SIZE = 50"

definition EMPTY_CITY :: string where
  "EMPTY_CITY = ''Please enter a city name''"

definition GENERIC_ERROR :: string where
  "GENERIC_ERROR = ''Unable to fetch weather information. Please try again.''"

definition RATE_LIMIT_MESSAGE :: string where
  "RATE_LIMIT_MESSAGE = ''Please wait a moment before trying again''"

definition NETWORK_ERROR :: string where
  "NETWORK_ERROR = ''Please check your internet connection''"

definition API_KEY_MISSING :: string where
  "API_KEY_MISSING = ''Weather API key is not configured''"

text \<open>
  A thrown value. Everything thrown inside the operations below is an instance of
  \<open>Error\<close> (\<open>new Error\<close>, a rejection of \<open>fetch\<close> or of \<open>json()\<close>), so the test
  \<open>error instanceof Error\<close> of the retry loop is true of every value of this type.
\<close>

record js_error =
  error_name :: string
  error_message :: string

definition new_Error :: "string \<Rightarrow> js_error" where
  "new_Error msg = \<lparr>error_name = ''Error'', error_message = msg\<rparr>"

section \<open>The rate limiter (class RateLimiter of utils/api.ts)\<close>

text \<open>
  \<open>Date.now()\<close> is a parameter. One call of \<open>canMakeRequest\<close> reads the clock
  twice: \<open>now\<close> is the reading tested against the window, \<open>now'\<close> the reading a
  reset stores as the new window start.
\<close>

record RateLimiter =
  requests :: nat
  limiter_lastReset :: int

definition new_RateLimiter :: "int \<Rightarrow> RateLimiter" where
  "new_RateLimiter now = \<lparr>requests = 0, limiter_lastReset = now\<rparr>"

definition canMakeRequest :: "int \<Rightarrow> int \<Rightarrow> RateLimiter \<Rightarrow> bool \<times> RateLimiter" where
  "canMakeRequest now now' rl =
     (let rl1 = (if now - limiter_lastReset rl > 60000
                 then rl\<lparr>requests := 0, limiter_lastReset := now'\<rparr>
                 else rl)
      in (requests rl1 < RATE_LIMIT, rl1\<lparr>requests := requests rl1 + 1\<rparr>))"

text \<open>A sequence of calls, each with its two clock readings; the answers in order.\<close>

fun canMakeRequest_calls :: "(int \<times> int) list \<Rightarrow> RateLimiter \<Rightarrow> bool list \<times> RateLimiter" where
  "canMakeRequest_calls [] rl = ([], rl)"
| "canMakeRequest_calls ((now, now') # ts) rl =
     (let (ok, rl1) = canMakeRequest now now' rl;
          (oks, rl2) = canMakeRequest_calls ts rl1
      in (ok # oks, rl2))"

section \<open>JavaScript numbers\<close>

text \<open>
  A \<open>number\<close> is an IEEE 754 binary64 value; the finite ones are kept as the rationals
  they denote. \<open>binary64\<close> rounds a rational to the nearest such value, a tie going to
  the even significand: \<open>exponent x\<close> is the integer part of the binary logarithm of a
  positive \<open>x\<close>, and \<open>spacing x\<close> is the distance between neighbouring values at the
  magnitude of \<open>x\<close>, 53 significant bits and \<open>2 powi (- 1074)\<close> for the subnormal
  values. The exponent is not bounded above, and \<open>Infinity\<close>, \<open>NaN\<close> and the sign of
  zero are not represented: the numbers of this program arrive as JSON text or from the
  clock, and the operations applied to them (dividing by 3.6, by 1000 and by the monthly
  limit, multiplying by 100, adding 1, rounding to an integer) keep a finite number
  finite.
\<close>

fun bits :: "nat \<Rightarrow> nat" where
  "bits n = (if n = 0 then 0 else Suc (bits (n div 2)))"

declare bits.simps [simp del]

definition exponent :: "rat \<Rightarrow> int" where
  "exponent x =
     (if 1 \<le> x then int (bits (nat \<lfloor>x\<rfloor>)) - 1 else - int (bits (nat (\<lceil>1 / x\<rceil> - 1))))"

definition round_half_even :: "rat \<Rightarrow> int" where
  "round_half_even q =
     (let f = \<lfloor>q\<rfloor>; r = q - of_int f
      in if r < 1 / 2 then f else if 1 / 2 < r then f + 1 else if even f then f else f + 1)"

definition grid_exponent :: "rat \<Rightarrow> int" where
  "grid_exponent x = max (exponent \<bar>x\<bar> - 52) (- 1074)"

definition spacing :: "rat \<Rightarrow> rat" where
  "spacing x = 2 powi max (exponent \<bar>x\<bar> - 52) (- 1074)"

definition binary64 :: "rat \<Rightarrow> rat" where
  "binary64 x =
     (if x = 0 then 0
      else sgn x * (of_int (round_half_even (\<bar>x\<bar> / spacing x)) * spacing x))"

text \<open>
  The type of the numbers: the values \<open>binary64\<close> rounds to. \<open>number_of x\<close> is the
  number a decimal literal or JSON text of value \<open>x\<close> denotes, \<open>rat_of\<close> the exact value
  of a number; two numbers are equal when their values are.
\<close>

typedef number = "range binary64" morphisms rat_of Abs_number
  by blast

setup_lifting type_definition_number

lift_definition number_of :: "rat \<Rightarrow> number" is binary64
  by (rule rangeI)

instantiation number :: equal
begin

definition equal_number :: "number \<Rightarrow> number \<Rightarrow> bool" where
  "equal_number a b \<longleftrightarrow> rat_of a = rat_of b"

instance
  by standard (simp add: equal_number_def rat_of_inject)

end

text \<open>
  The operators \<open>/\<close>, \<open>*\<close> and \<open>++\<close>: the exact result, rounded. \<open>Math.round\<close> gives
  the integer nearest to its argument, a tie going up.
\<close>

definition js_divide :: "number \<Rightarrow> number \<Rightarrow> number" where
  "js_divide a b = number_of (rat_of a / rat_of b)"

definition js_times :: "number \<Rightarrow> number \<Rightarrow> number" where
  "js_times a b = number_of (rat_of a * rat_of b)"

definition js_increment :: "number \<Rightarrow> number" where
  "js_increment a = number_of (rat_of a + 1)"

definition Math_round :: "number \<Rightarrow> number" where
  "Math_round x = number_of (of_int \<lfloor>rat_of x + 1 / 2\<rfloor>)"

section \<open>The usage counter (class ApiCallCounter of utils/apiCounter.ts)\<close>

text \<open>
  A \<open>Date\<close> object: its instant and the month and year of that instant in local time.
  \<open>lastReset\<close> is kept as a string and parsed again at every check. The constructor
  resets a state whose string does not parse, and every later value is the ISO string of
  a \<open>Date\<close>, which names its instant to the millisecond: the state holds the \<open>Date\<close>
  the string parses to. \<open>count\<close> is a \<open>number\<close>, read from storage by the constructor
  (\<open>Number(parsed.count) || 0\<close>, so never \<open>NaN\<close>).
\<close>

record Date =
  getTime :: int
  getFullYear :: int
  getMonth :: nat

record ApiCounterState =
  count :: number
  lastReset :: Date

text \<open>
  \<open>localStorage\<close> is the copy persisted under the storage key; \<open>storage_writable\<close>
  says whether \<open>localStorage.setItem\<close> succeeds (\<open>saveState\<close> catches its failure).
\<close>

record ApiCallCounter =
  state :: ApiCounterState
  localStorage :: "ApiCounterState option"
  storage_writable :: bool

definition saveState :: "ApiCallCounter \<Rightarrow> ApiCallCounter" where
  "saveState c = (if storage_writable c then c\<lparr>localStorage := Some (state c)\<rparr> else c)"

definition checkAndResetMonthly :: "Date \<Rightarrow> ApiCallCounter \<Rightarrow> ApiCallCounter" where
  "checkAndResetMonthly now c =
     (if getMonth (lastReset (state c)) \<noteq> getMonth now
         \<or> getFullYear (lastReset (state c)) \<noteq> getFullYear now
      then saveState (c\<lparr>state := \<lparr>count = number_of 0, lastReset = now\<rparr>\<rparr>)
      else c)"

definition increment :: "Date \<Rightarrow> ApiCallCounter \<Rightarrow> ApiCallCounter" where
  "increment now c =
     (let c1 = checkAndResetMonthly now c;
          c2 = c1\<lparr>state := (state c1)\<lparr>count := js_increment (count (state c1))\<rparr>\<rparr>
      in saveState c2)"

definition getCount :: "Date \<Rightarrow> ApiCallCounter \<Rightarrow> number \<times> ApiCallCounter" where
  "getCount now c = (let c1 = checkAndResetMonthly now c in (count (state c1), c1))"

definition getPercentage :: "Date \<Rightarrow> ApiCallCounter \<Rightarrow> number \<times> ApiCallCounter" where
  "getPercentage now c =
     (let (n, c1) = getCount now c
      in (js_times (js_divide n (number_of (of_int MONTHLY_LIMIT))) (number_of 100), c1))"





section \<open>Provider payloads (types/api.ts) and normalized results (types/weather.ts)\<close>

record Condition =
  condition_text :: string
  condition_icon :: string
  condition_code :: number

record Location =
  location_name :: string
  location_region :: string
  location_country :: string
  location_lat :: number
  location_lon :: number
  location_tz_id :: string
  location_localtime :: string

record Current =
  temp_c :: number
  temp_f :: number
  condition :: Condition
  wind_kph :: number
  wind_degree :: number
  pressure_mb :: number
  current_humidity :: number
  feelslike_c :: number

record WeatherApiResponse =
  location :: Location
  current :: Current

record HourlyWeather =
  hour_time :: string
  hour_temp_c :: number
  hour_temp_f :: number
  hour_condition :: Condition
  hour_wind_kph :: number
  hour_wind_degree :: number
  hour_humidity :: number
  chance_of_rain :: number
  chance_of_snow :: number
  is_day :: number

record DaySummary =
  maxtemp_c :: number
  mintemp_c :: number
  avgtemp_c :: number
  day_condition :: Condition

text \<open>
  The forecast payload as it arrives: \<open>getForecastData\<close> tests at run time whether
  \<open>forecast\<close>, \<open>forecastday\<close> and the first day's \<open>hour\<close> are there, so each may be
  missing (\<open>None\<close>).
\<close>

record ApiForecastDay =
  api_date :: string
  api_day :: DaySummary
  api_hour :: "HourlyWeather list option"

record ApiForecast =
  api_forecastday :: "ApiForecastDay list option"

record ForecastApiResponse =
  forecast_location :: Location
  forecast_current :: Current
  api_forecast :: "ApiForecast option"

record CitySearchApiResponse =
  city_id :: number
  city_name :: string
  city_region :: string
  city_country :: string
  city_lat :: number
  city_lon :: number
  city_url :: string

record WeatherCondition =
  weather_id :: number
  weather_main :: string
  description :: string
  icon :: string

record WeatherMetrics =
  temp :: number
  feels_like :: number
  temp_min :: number
  temp_max :: number
  pressure :: number
  humidity :: number

record WindInfo =
  speed :: number
  deg :: number

record Place =
  place_name :: string
  place_country :: string

record WeatherData =
  weather :: "WeatherCondition list"
  main :: WeatherMetrics
  wind :: WindInfo
  name :: string
  sys :: Place

text \<open>\<open>dt\<close> is \<open>None\<close> where the source computes \<open>NaN\<close> (a date string that does not parse).\<close>

record ForecastDay =
  dt :: "number option"
  day_main :: WeatherMetrics
  day_weather :: "WeatherCondition list"
  day_wind :: WindInfo
  dt_txt :: string

record DayForecast =
  date :: string
  day :: DaySummary
  hour :: "HourlyWeather list"

record LocationInfo =
  timezone :: string
  localtime :: string
  info_country :: string
  info_name :: string
  info_region :: string

record ForecastData =
  forecast_list :: "ForecastDay list"
  city :: Place
  forecastday :: "DayForecast list"
  location_info :: LocationInfo

text \<open>
  The weather cache holds \<open>WeatherData | ForecastData\<close>; a hit is returned under a type
  assertion (\<open>as WeatherData\<close>, \<open>as ForecastData\<close>) that checks nothing at run time.
\<close>

datatype cached_data = Weather WeatherData | Forecast ForecastData

section \<open>The platform and the state of the module\<close>

text \<open>
  The environment of one call: the API key of the build (\<open>None\<close> when undefined), the
  live cache version (\<open>CONFIG.CACHE.VERSION\<close>), the string functions of the platform
  (\<open>encodeURIComponent\<close> throws a \<open>URIError\<close> on a string with a lone surrogate),
  \<open>new Date(s).getTime()\<close> (\<open>None\<close> for an invalid date), and the clock readings the
  call takes, in the order of the source: in \<open>isCacheValid\<close>, the two of
  \<open>canMakeRequest\<close>, in \<open>apiCounter.increment\<close> and in \<open>LRUCache.set\<close>.
\<close>

record env =
  VITE_WEATHER_API_KEY :: "string option"
  CACHE_VERSION :: string
  trim :: "string \<Rightarrow> string"
  toLowerCase :: "string \<Rightarrow> string"
  encodeURIComponent :: "string \<Rightarrow> js_error + string"
  parse_getTime :: "string \<Rightarrow> int option"
  now_check :: int
  now_limit :: int
  now_window :: int
  now_count :: Date
  now_store :: int

text \<open>
  The module's singletons, and two ghost traces: the URLs passed to \<open>fetch\<close>, one per
  attempt, and the delays waited before retries.
\<close>

record world =
  cityCache :: "CitySearchApiResponse list LRUCache"
  weatherCache :: "cached_data LRUCache"
  rateLimiter :: RateLimiter
  apiCounter :: ApiCallCounter
  fetched :: "string list"
  delays :: "int list"

section \<open>The request wrapper (fetchApi of utils/api.ts)\<close>

record retry_config =
  maxRetries :: nat
  baseDelay :: int

definition RETRY_CONFIG :: retry_config where
  "RETRY_CONFIG = \<lparr>maxRetries = 2, baseDelay = 1000\<rparr>"

definition getRetryDelay :: "nat \<Rightarrow> int" where
  "getRetryDelay attempt = min (baseDelay RETRY_CONFIG * 2 ^ attempt) 5000"

fun startsWith :: "string \<Rightarrow> string \<Rightarrow> bool" where
  "startsWith s [] = True"
| "startsWith [] (c # cs) = False"
| "startsWith (x # xs) (c # cs) = (x = c \<and> startsWith xs cs)"

fun str_includes :: "string \<Rightarrow> string \<Rightarrow> bool" where
  "str_includes [] sub = (sub = [])"
| "str_includes (x # xs) sub = (startsWith (x # xs) sub \<or> str_includes xs sub)"

definition digit :: "nat \<Rightarrow> char" where
  "digit n = ''0123456789'' ! n"

fun show_nat :: "nat \<Rightarrow> string" where
  "show_nat n = (if n < 10 then [digit n] else show_nat (n div 10) @ [digit (n mod 10)])"

declare show_nat.simps [simp del]

text \<open>
  What one attempt meets: a response with \<open>response.ok\<close> and its parsed body; a response
  that is not ok, with \<open>errorData.error?.message\<close> (\<open>None\<close> when undefined) and the
  status; or a rejection (of \<open>fetch\<close>, by the abort of the timeout among others, or of
  \<open>response.json()\<close>) with the value thrown.
\<close>

datatype 'a attempt_outcome =
    Response_ok 'a
  | Response_not_ok "string option" nat
  | Rejected js_error

text \<open>The body of the \<open>try\<close> block after \<open>fetch\<close>: the data returned or the error thrown.\<close>

fun attempt_result :: "string \<Rightarrow> 'a attempt_outcome \<Rightarrow> js_error + 'a" where
  "attempt_result errorMessage (Response_ok d) = Inr d"
| "attempt_result errorMessage (Response_not_ok msg status) =
     Inl (new_Error
       (case msg of
          Some m \<Rightarrow> if m \<noteq> [] then m else errorMessage @ '' (Status: '' @ show_nat status @ '')''
        | None \<Rightarrow> errorMessage @ '' (Status: '' @ show_nat status @ '')''))"
| "attempt_result errorMessage (Rejected e) = Inl e"

definition should_retry :: "js_error \<Rightarrow> bool" where
  "should_retry error =
     (\<not> (error_name error \<noteq> ''AbortError'' \<and> \<not> str_includes (error_message error) ''network''))"

text \<open>
  The \<open>for\<close> loop of \<open>fetchApi\<close> from attempt number \<open>attempt\<close> on; \<open>net url attempt\<close>
  is what that attempt meets.
\<close>

function fetch_loop ::
  "(string \<Rightarrow> nat \<Rightarrow> 'a attempt_outcome) \<Rightarrow> Date \<Rightarrow> string \<Rightarrow> string \<Rightarrow> nat
     \<Rightarrow> js_error option \<Rightarrow> world \<Rightarrow> (js_error + 'a) \<times> world" where
  "fetch_loop net today url errorMessage attempt lastError w =
     (if attempt \<le> maxRetries RETRY_CONFIG
      then
        (let w1 = (if attempt = 0 then w\<lparr>apiCounter := increment today (apiCounter w)\<rparr> else w);
             w2 = w1\<lparr>fetched := fetched w1 @ [url]\<rparr>
         in case attempt_result errorMessage (net url attempt) of
              Inr d \<Rightarrow> (Inr d, w2)
            | Inl error \<Rightarrow>
                if \<not> should_retry error then (Inl error, w2)
                else if attempt = maxRetries RETRY_CONFIG
                then (Inl (new_Error NETWORK_ERROR), w2)
                else fetch_loop net today url errorMessage (attempt + 1) (Some error)
                       (w2\<lparr>delays := delays w2 @ [getRetryDelay attempt]\<rparr>))
      else (Inl (case lastError of Some e \<Rightarrow> e | None \<Rightarrow> new_Error GENERIC_ERROR), w))"
  by pat_completeness auto
termination
  by (relation "measure (\<lambda>(net, today, url, errorMessage, attempt, lastError, w).
        Suc (maxRetries RETRY_CONFIG) - attempt)") auto

declare fetch_loop.simps [simp del]

definition fetchApi ::
  "(string \<Rightarrow> nat \<Rightarrow> 'a attempt_outcome) \<Rightarrow> env \<Rightarrow> string \<Rightarrow> string \<Rightarrow> world
     \<Rightarrow> (js_error + 'a) \<times> world" where
  "fetchApi net e url errorMessage w =
     (let (ok, rl) = canMakeRequest (now_limit e) (now_window e) (rateLimiter w);
          w0 = w\<lparr>rateLimiter := rl\<rparr>
      in if \<not> ok then (Inl (new_Error RATE_LIMIT_MESSAGE), w0)
         else fetch_loop net (now_count e) url errorMessage 0 None w0)"

section \<open>The weather service (utils/api.ts)\<close>

definition sanitizeInput :: "env \<Rightarrow> string \<Rightarrow> js_error + string" where
  "sanitizeInput e input =
     (if input = [] then Inr [] else encodeURIComponent e (toLowerCase e (trim e input)))"

definition validateApiKey :: "env \<Rightarrow> js_error option" where
  "validateApiKey e =
     (case VITE_WEATHER_API_KEY e of
        None \<Rightarrow> Some (new_Error API_KEY_MISSING)
      | Some k \<Rightarrow> if k = [] then Some (new_Error API_KEY_MISSING) else None)"

definition api_key_text :: "env \<Rightarrow> string" where
  "api_key_text e = (case VITE_WEATHER_API_KEY e of None \<Rightarrow> ''undefined'' | Some k \<Rightarrow> k)"

text \<open>The request URLs, as the template literals of the three operations build them.\<close>

definition search_url :: "env \<Rightarrow> string \<Rightarrow> string" where
  "search_url e sanitizedQuery =
     BASE_URL @ ''/search.json?key='' @ api_key_text e @ ''&q='' @ sanitizedQuery"

definition current_url :: "env \<Rightarrow> string \<Rightarrow> string" where
  "current_url e sanitizedCity =
     BASE_URL @ ''/current.json?key='' @ api_key_text e @ ''&q='' @ sanitizedCity @ ''&aqi=no''"

definition forecast_url :: "env \<Rightarrow> string \<Rightarrow> string" where
  "forecast_url e sanitizedCity =
     BASE_URL @ ''/forecast.json?key='' @ api_key_text e @ ''&q='' @ sanitizedCity
       @ ''&days=3&aqi=no''"

text \<open>
  The test \<open>cached && isCacheValid(cached.timestamp)\<close> of the three operations: the
  data of the entry \<open>get\<close> returned, when there is one and it is fresh.
\<close>

definition fresh :: "int \<Rightarrow> 'a CacheEntry option \<Rightarrow> 'a option" where
  "fresh now cached =
     (case cached of
        Some entry \<Rightarrow> if isCacheValid now (timestamp entry) then Some (data entry) else None
      | None \<Rightarrow> None)"

definition searchCities ::
  "(string \<Rightarrow> nat \<Rightarrow> CitySearchApiResponse list attempt_outcome) \<Rightarrow> env \<Rightarrow> string \<Rightarrow> world
     \<Rightarrow> (js_error + CitySearchApiResponse list) \<times> world" where
  "searchCities net e query w =
     (if trim e query = [] \<or> length query < MIN_QUERY_LENGTH then (Inr [], w)
      else case validateApiKey e of
        Some err \<Rightarrow> (Inl err, w)
      | None \<Rightarrow>
         (case sanitizeInput e query of
            Inl err \<Rightarrow> (Inl err, w)
          | Inr sanitizedQuery \<Rightarrow>
             (let (cached, cc) = cache_get (CACHE_VERSION e) sanitizedQuery (cityCache w);
                  w1 = w\<lparr>cityCache := cc\<rparr>
              in case fresh (now_check e) cached of
                   Some hit \<Rightarrow> (Inr hit, w1)
                 | None \<Rightarrow>
                    (case fetchApi net e (search_url e sanitizedQuery)
                            ''Failed to fetch city suggestions'' w1 of
                       (Inr d, w2) \<Rightarrow>
                         (Inr d, w2\<lparr>cityCache :=
                            cache_set (CACHE_VERSION e) (now_store e) sanitizedQuery d
                              (cityCache w2)\<rparr>)
                     | (Inl error, w2) \<Rightarrow> (Inr [], w2)))))"

definition transformWeather :: "WeatherApiResponse \<Rightarrow> WeatherData" where
  "transformWeather d =
     \<lparr>weather = [\<lparr>weather_id = condition_code (condition (current d)),
                  weather_main = condition_text (condition (current d)),
                  description = condition_text (condition (current d)),
                  icon = condition_icon (condition (current d))\<rparr>],
      main = \<lparr>temp = Math_round (temp_c (current d)),
              feels_like = Math_round (feelslike_c (current d)),
              temp_min = Math_round (temp_c (current d)),
              temp_max = Math_round (temp_c (current d)),
              pressure = pressure_mb (current d),
              humidity = current_humidity (current d)\<rparr>,
      wind = \<lparr>speed = Math_round (js_divide (wind_kph (current d)) (number_of (36 / 10))),
              deg = wind_degree (current d)\<rparr>,
      name = location_name (location d),
      sys = \<lparr>place_name = location_name (location d),
             place_country = location_country (location d)\<rparr>\<rparr>"

definition getWeatherData ::
  "(string \<Rightarrow> nat \<Rightarrow> WeatherApiResponse attempt_outcome) \<Rightarrow> env \<Rightarrow> string \<Rightarrow> world
     \<Rightarrow> (js_error + cached_data) \<times> world" where
  "getWeatherData net e cityname w =
     (if trim e cityname = [] then (Inl (new_Error EMPTY_CITY), w)
      else case validateApiKey e of
        Some err \<Rightarrow> (Inl err, w)
      | None \<Rightarrow>
         (case sanitizeInput e cityname of
            Inl err \<Rightarrow> (Inl err, w)
          | Inr sanitizedCity \<Rightarrow>
             (let cacheKey = ''weather_'' @ sanitizedCity;
                  (cached, wc) = cache_get (CACHE_VERSION e) cacheKey (weatherCache w);
                  w1 = w\<lparr>weatherCache := wc\<rparr>
              in case fresh (now_check e) cached of
                   Some hit \<Rightarrow> (Inr hit, w1)
                 | None \<Rightarrow>
                    (case fetchApi net e (current_url e sanitizedCity)
                            ''Failed to fetch weather data'' w1 of
                       (Inl error, w2) \<Rightarrow> (Inl error, w2)
                     | (Inr d, w2) \<Rightarrow>
                         (let transformedData = Weather (transformWeather d)
                          in (Inr transformedData, w2\<lparr>weatherCache :=
                                cache_set (CACHE_VERSION e) (now_store e) cacheKey transformedData
                                  (weatherCache w2)\<rparr>))))))"

text \<open>
  The test \<open>!data.forecast?.forecastday?.[0]?.hour\<close>: the hours of the first day, when
  every step of the chain is there (an empty array of hours is there).
\<close>

definition first_day_hour :: "ForecastApiResponse \<Rightarrow> HourlyWeather list option" where
  "first_day_hour d =
     (case api_forecast d of
        None \<Rightarrow> None
      | Some f \<Rightarrow>
          (case api_forecastday f of
             None \<Rightarrow> None
           | Some [] \<Rightarrow> None
           | Some (day0 # _) \<Rightarrow> api_hour day0))"

definition forecast_days :: "ForecastApiResponse \<Rightarrow> ApiForecastDay list" where
  "forecast_days d =
     (case api_forecast d of
        None \<Rightarrow> []
      | Some f \<Rightarrow> (case api_forecastday f of None \<Rightarrow> [] | Some ds \<Rightarrow> ds))"

definition list_item :: "env \<Rightarrow> ApiForecastDay \<Rightarrow> ForecastDay" where
  "list_item e d =
     \<lparr>dt = map_option (\<lambda>t. js_divide (number_of (of_int t)) (number_of 1000))
            (parse_getTime e (api_date d)),
      day_main = \<lparr>temp = Math_round (avgtemp_c (api_day d)),
                  feels_like = Math_round (avgtemp_c (api_day d)),
                  temp_min = Math_round (mintemp_c (api_day d)),
                  temp_max = Math_round (maxtemp_c (api_day d)),
                  pressure = number_of 1015,
                  humidity = number_of 0\<rparr>,
      day_weather = [\<lparr>weather_id = condition_code (day_condition (api_day d)),
                      weather_main = condition_text (day_condition (api_day d)),
                      description = condition_text (day_condition (api_day d)),
                      icon = condition_icon (day_condition (api_day d))\<rparr>],
      day_wind = \<lparr>speed = number_of 0, deg = number_of 0\<rparr>,
      dt_txt = api_date d\<rparr>"

definition copy_hour :: "HourlyWeather \<Rightarrow> HourlyWeather" where
  "copy_hour h =
     \<lparr>hour_time = hour_time h, hour_temp_c = hour_temp_c h, hour_temp_f = hour_temp_f h,
      hour_condition = hour_condition h, hour_wind_kph = hour_wind_kph h,
      hour_wind_degree = hour_wind_degree h, hour_humidity = hour_humidity h,
      chance_of_rain = chance_of_rain h, chance_of_snow = chance_of_snow h,
      is_day = is_day h\<rparr>"

text \<open>
  \<open>day.hour.map(...)\<close> throws a \<open>TypeError\<close> for a day without \<open>hour\<close> (only the
  first day has been tested); the text of its message is the engine's.
\<close>

definition hour_missing :: js_error where
  "hour_missing = \<lparr>error_name = ''TypeError'',
                    error_message = ''Cannot read properties of undefined''\<rparr>"

fun forecast_day_items :: "ApiForecastDay list \<Rightarrow> js_error + DayForecast list" where
  "forecast_day_items [] = Inr []"
| "forecast_day_items (d # ds) =
     (case api_hour d of
        None \<Rightarrow> Inl hour_missing
      | Some hs \<Rightarrow>
          (case forecast_day_items ds of
             Inl err \<Rightarrow> Inl err
           | Inr items \<Rightarrow>
               Inr (\<lparr>date = api_date d,
                      day = \<lparr>maxtemp_c = maxtemp_c (api_day d), mintemp_c = mintemp_c (api_day d),
                             avgtemp_c = avgtemp_c (api_day d),
                             day_condition = day_condition (api_day d)\<rparr>,
                      hour = map copy_hour hs\<rparr> # items)))"

definition transformForecast :: "env \<Rightarrow> ForecastApiResponse \<Rightarrow> js_error + ForecastData" where
  "transformForecast e d =
     (case forecast_day_items (forecast_days d) of
        Inl err \<Rightarrow> Inl err
      | Inr items \<Rightarrow>
          Inr \<lparr>forecast_list = map (list_item e) (forecast_days d),
               city = \<lparr>place_name = location_name (forecast_location d),
                       place_country = location_country (forecast_location d)\<rparr>,
               forecastday = items,
               location_info =
                 \<lparr>timezone = location_tz_id (forecast_location d),
                  localtime = location_localtime (forecast_location d),
                  info_country = location_country (forecast_location d),
                  info_name = location_name (forecast_location d),
                  info_region = location_region (forecast_location d)\<rparr>\<rparr>)"

definition getForecastData ::
  "(string \<Rightarrow> nat \<Rightarrow> ForecastApiResponse attempt_outcome) \<Rightarrow> env \<Rightarrow> string \<Rightarrow> world
     \<Rightarrow> (js_error + cached_data) \<times> world" where
  "getForecastData net e cityname w =
     (if trim e cityname = [] then (Inl (new_Error EMPTY_CITY), w)
      else case validateApiKey e of
        Some err \<Rightarrow> (Inl err, w)
      | None \<Rightarrow>
         (case sanitizeInput e cityname of
            Inl err \<Rightarrow> (Inl err, w)
          | Inr sanitizedCity \<Rightarrow>
             (let cacheKey = ''forecast_'' @ sanitizedCity;
                  (cached, wc) = cache_get (CACHE_VERSION e) cacheKey (weatherCache w);
                  w1 = w\<lparr>weatherCache := wc\<rparr>
              in case fresh (now_check e) cached of
                   Some hit \<Rightarrow> (Inr hit, w1)
                 | None \<Rightarrow>
                    (case fetchApi net e (forecast_url e sanitizedCity)
                            ''Failed to fetch forecast data'' w1 of
                       (Inl error, w2) \<Rightarrow> (Inl error, w2)
                     | (Inr d, w2) \<Rightarrow>
                         if first_day_hour d = None
                         then (Inl (new_Error ''Invalid forecast data received from API''), w2)
                         else (case transformForecast e d of
                                 Inl err \<Rightarrow> (Inl err, w2)
                               | Inr t \<Rightarrow>
                                   (Inr (Forecast t), w2\<lparr>weatherCache :=
                                      cache_set (CACHE_VERSION e) (now_store e) cacheKey (Forecast t)
                                        (weatherCache w2)\<rparr>))))))"

section \<open>Vocabulary of the claims and example inputs\<close>

text \<open>
  An attempt fails retryably when it throws an error the loop retries; where the loop
  stops at an attempt, \<open>final_result\<close> is what \<open>fetchApi\<close> returns or throws there.
\<close>

definition retryable_failure :: "js_error + 'a \<Rightarrow> bool" where
  "retryable_failure r = (case r of Inl e \<Rightarrow> should_retry e | Inr _ \<Rightarrow> False)"

definition final_result :: "js_error + 'a \<Rightarrow> js_error + 'a" where
  "final_result r =
     (case r of
        Inr d \<Rightarrow> Inr d
      | Inl e \<Rightarrow> if should_retry e then Inl (new_Error NETWORK_ERROR) else Inl e)"

text \<open>
  A cached value is built from a payload when it is what \<open>getWeatherData\<close> makes of
  some provider payload. The invariant of the weather cache: every entry under a key
  that starts with \<open>weather_\<close> holds such a value.
\<close>

definition built_from_payload :: "cached_data \<Rightarrow> bool" where
  "built_from_payload r = (\<exists>p. r = Weather (transformWeather p))"

definition weather_entries_built :: "world \<Rightarrow> bool" where
  "weather_entries_built w =
     (\<forall>k entry. map_get (cache (weatherCache w)) k = Some entry \<and> startsWith k ''weather_''
        \<longrightarrow> built_from_payload (data entry))"

text \<open>
  The platform's string functions on ASCII text: \<open>trim\<close> removes white space at both
  ends, \<open>toLowerCase\<close> maps the letters A to Z, \<open>encodeURIComponent\<close> keeps the unreserved
  characters and writes every other one as a percent sign and two hexadecimal digits.
\<close>

definition white_space :: "char \<Rightarrow> bool" where
  "white_space c = (c \<in> set [CHR 0x20, CHR 0x09, CHR 0x0A, CHR 0x0B, CHR 0x0C, CHR 0x0D])"

definition ascii_trim :: "string \<Rightarrow> string" where
  "ascii_trim s = rev (dropWhile white_space (rev (dropWhile white_space s)))"

definition ascii_lower :: "char \<Rightarrow> char" where
  "ascii_lower c =
     (case map_of (zip ''ABCDEFGHIJKLMNOPQRSTUVWXYZ'' ''abcdefghijklmnopqrstuvwxyz'') c of
        Some l \<Rightarrow> l
      | None \<Rightarrow> c)"

definition unreserved :: "char \<Rightarrow> bool" where
  "unreserved c =
     (c \<in> set (CHR 0x27 #
        ''ABCDEFGHIJKLMNOPQRSTUVWXYZabcdefghijklmnopqrstuvwxyz0123456789-_.!~*()''))"

definition percent_encode :: "char \<Rightarrow> string" where
  "percent_encode c =
     (if unreserved c then [c]
      else [CHR ''%'', ''0123456789ABCDEF'' ! (of_char c div 16),
            ''0123456789ABCDEF'' ! (of_char c mod 16)])"

definition example_env :: env where
  "example_env =
     \<lparr>VITE_WEATHER_API_KEY = Some ''k'',
      CACHE_VERSION = ''1.0.0'',
      trim = ascii_trim,
      toLowerCase = map ascii_lower,
      encodeURIComponent = (\<lambda>s. Inr (concat (map percent_encode s))),
      parse_getTime = (\<lambda>s. None),
      now_check = 1000,
      now_limit = 1000,
      now_window = 1000,
      now_count = \<lparr>getTime = 1000, getFullYear = 2025, getMonth = 2\<rparr>,
      now_store = 2000\<rparr>"

definition example_world :: world where
  "example_world =
     \<lparr>cityCache = new_LRUCache MAX_SIZE,
      weatherCache = new_LRUCache MAX_SIZE,
      rateLimiter = new_RateLimiter 0,
      apiCounter = \<lparr>state = \<lparr>count = number_of 0,
                              lastReset = \<lparr>getTime = 0, getFullYear = 2025, getMonth = 2\<rparr>\<rparr>,
                    localStorage = None, storage_writable = True\<rparr>,
      fetched = [],
      delays = []\<rparr>"

definition malformed :: js_error where
  "malformed = \<lparr>error_name = ''URIError'', error_message = ''URI malformed''\<rparr>"

definition aborted :: js_error where
  "aborted = \<lparr>error_name = ''AbortError'', error_message = ''The operation was aborted.''\<rparr>"

fun always_aborted :: "string \<Rightarrow> nat \<Rightarrow> WeatherApiResponse attempt_outcome" where
  "always_aborted url attempt = Rejected aborted"

fun abort_then_not_found :: "string \<Rightarrow> nat \<Rightarrow> WeatherApiResponse attempt_outcome" where
  "abort_then_not_found url 0 = Rejected aborted"
| "abort_then_not_found url (Suc n) = Response_not_ok (Some ''No matching location found.'') 400"

fun not_found :: "string \<Rightarrow> nat \<Rightarrow> WeatherApiResponse attempt_outcome" where
  "not_found url attempt = Response_not_ok (Some ''No matching location found.'') 400"

definition london :: CitySearchApiResponse where
  "london = \<lparr>city_id = number_of 2801268, city_name = ''London'',
              city_region = ''City of London, Greater London'',
              city_country = ''United Kingdom'', city_lat = number_of (5152 / 100),
              city_lon = number_of (- 11 / 100),
              city_url = ''london-city-of-london-greater-london-united-kingdom''\<rparr>"

fun one_city :: "string \<Rightarrow> nat \<Rightarrow> CitySearchApiResponse list attempt_outcome" where
  "one_city url attempt = Response_ok [london]"

fun server_error :: "string \<Rightarrow> nat \<Rightarrow> CitySearchApiResponse list attempt_outcome" where
  "server_error url attempt = Response_not_ok None 500"

definition paris_payload :: WeatherApiResponse where
  "paris_payload =
     \<lparr>location = \<lparr>location_name = ''Paris'', location_region = ''Ile-de-France'',
                   location_country = ''France'', location_lat = number_of (4887 / 100),
                   location_lon = number_of (233 / 100), location_tz_id = ''Europe/Paris'',
                   location_localtime = ''2025-03-14 12:00''\<rparr>,
      current = \<lparr>temp_c = number_of (186 / 10), temp_f = number_of (655 / 10),
                  condition = \<lparr>condition_text = ''Sunny'', condition_icon = ''113.png'',
                                condition_code = number_of 1000\<rparr>,
                  wind_kph = number_of (108 / 10), wind_degree = number_of 200,
                  pressure_mb = number_of 1015, current_humidity = number_of 60,
                  feelslike_c = number_of (184 / 10)\<rparr>\<rparr>"

fun paris_found :: "string \<Rightarrow> nat \<Rightarrow> WeatherApiResponse attempt_outcome" where
  "paris_found url attempt = Response_ok paris_payload"

fun forecast_aborted :: "string \<Rightarrow> nat \<Rightarrow> ForecastApiResponse attempt_outcome" where
  "forecast_aborted url attempt = Rejected aborted"

definition paris_forecast :: ForecastData where
  "paris_forecast =
     \<lparr>forecast_list =
        [\<lparr>dt = Some (number_of 1741910400),
          day_main = \<lparr>temp = number_of 15, feels_like = number_of 15, temp_min = number_of 9,
                      temp_max = number_of 19, pressure = number_of 1015,
                      humidity = number_of 0\<rparr>,
          day_weather = [\<lparr>weather_id = number_of 1000, weather_main = ''Sunny'',
                          description = ''Sunny'', icon = ''113.png''\<rparr>],
          day_wind = \<lparr>speed = number_of 0, deg = number_of 0\<rparr>,
          dt_txt = ''2025-03-14''\<rparr>],
      city = \<lparr>place_name = ''Paris'', place_country = ''France''\<rparr>,
      forecastday =
        [\<lparr>date = ''2025-03-14'',
          day = \<lparr>maxtemp_c = number_of (186 / 10), mintemp_c = number_of (91 / 10),
                 avgtemp_c = number_of (149 / 10),
                 day_condition = \<lparr>condition_text = ''Sunny'', condition_icon = ''113.png'',
                                   condition_code = number_of 1000\<rparr>\<rparr>,
          hour = []\<rparr>],
      location_info = \<lparr>timezone = ''Europe/Paris'', localtime = ''2025-03-14 12:00'',
                        info_country = ''France'', info_name = ''Paris'',
                        info_region = ''Ile-de-France''\<rparr>\<rparr>"

definition warm_world :: world where
  "warm_world =
     example_world\<lparr>weatherCache :=
       \<lparr>cache = [(''weather_paris'',
                   \<lparr>data = Weather (transformWeather paris_payload), timestamp = 500,
                    version = ''1.0.0''\<rparr>),
                 (''forecast_paris'',
                   \<lparr>data = Forecast paris_forecast, timestamp = 600, version = ''1.0.0''\<rparr>)],
        maxSize = MAX_SIZE\<rparr>\<rparr>"

section \<open>Properties of the numbers\<close>

lemma bits_bounds: "0 < n \<Longrightarrow> 2 ^ (bits n - 1) \<le> n \<and> n < 2 ^ bits n"
proof (induction n rule: less_induct)
  case (less n)
  show ?case
  proof (cases "n div 2 = 0")
    case True
    then have "n = 1" using less.prems by auto
    moreover have "bits (Suc 0) = Suc 0"
      by (simp add: bits.simps [of "Suc 0"] bits.simps [of 0])
    ultimately show ?thesis
      by simp
  next
    case False
    then have pos: "0 < n div 2" by simp
    have lt: "n div 2 < n" using less.prems by simp
    from less.IH [OF lt pos]
    have lo: "2 ^ (bits (n div 2) - 1) \<le> n div 2" and hi: "n div 2 < 2 ^ bits (n div 2)"
      by simp_all
    have b: "bits n = Suc (bits (n div 2))"
      using less.prems by (subst bits.simps) simp
    have bpos: "0 < bits (n div 2)"
      using pos by (subst bits.simps) simp
    have "(2::nat) ^ bits (n div 2) = 2 * 2 ^ (bits (n div 2) - 1)"
      using bpos by (cases "bits (n div 2)") simp_all
    then have "2 ^ bits (n div 2) \<le> 2 * (n div 2)"
      using lo by simp
    also have "\<dots> \<le> n" by simp
    finally have 1: "2 ^ (bits n - 1) \<le> n" by (simp add: b)
    have "n < 2 * (n div 2) + 2" by presburger
    also have "\<dots> \<le> 2 * 2 ^ bits (n div 2)" using hi by simp
    finally have 2: "n < 2 ^ bits n" by (simp add: b)
    show ?thesis using 1 2 by simp
  qed
qed

lemma bits_pos: "0 < n \<Longrightarrow> 0 < bits n"
  by (subst bits.simps) simp

lemma exponent_bounds:
  assumes "0 < x"
  shows "2 powi exponent x \<le> x \<and> x < 2 powi (exponent x + 1)"
proof (cases "1 \<le> x")
  case True
  define n where "n = nat \<lfloor>x\<rfloor>"
  have npos: "0 < n" using True by (simp add: n_def)
  have nx: "of_nat n \<le> x" "x < of_nat n + 1"
    using True floor_correct [of x] by (simp_all add: n_def)
  have e: "exponent x = int (bits n) - 1"
    using True by (simp add: exponent_def n_def)
  from bits_bounds [OF npos] have lo: "2 ^ (bits n - 1) \<le> n" and hi: "n < 2 ^ bits n"
    by simp_all
  have bp: "0 < bits n" using npos by (rule bits_pos)
  have e1: "(2::rat) powi exponent x = 2 ^ (bits n - 1)"
    using bp by (simp add: e power_int_def nat_diff_distrib)
  have e2: "(2::rat) powi (exponent x + 1) = 2 ^ bits n"
    by (simp add: e)
  have "(of_nat (2 ^ (bits n - 1)) :: rat) \<le> of_nat n"
    using lo by (simp only: of_nat_le_iff)
  then have "(2::rat) ^ (bits n - 1) \<le> of_nat n"
    by simp
  then have 1: "2 powi exponent x \<le> x" using nx e1 by linarith
  have "n + 1 \<le> 2 ^ bits n" using hi by simp
  then have "(of_nat (n + 1) :: rat) \<le> of_nat (2 ^ bits n)"
    by (simp only: of_nat_le_iff)
  then have "of_nat n + 1 \<le> (2::rat) ^ bits n" by simp
  then have 2: "x < 2 powi (exponent x + 1)" using nx e2 by linarith
  show ?thesis using 1 2 by simp
next
  case False
  then have x1: "x < 1" by simp
  define y where "y = 1 / x"
  have y1: "1 < y" using assms x1 by (simp add: y_def)
  define m where "m = nat (\<lceil>y\<rceil> - 1)"
  have c2: "2 \<le> \<lceil>y\<rceil>" using y1 by (simp add: le_ceiling_iff)
  have mpos: "0 < m" using c2 by (simp add: m_def)
  have my: "of_nat m < y" "y \<le> of_nat m + 1"
  proof -
    have "of_int (\<lceil>y\<rceil> - 1) < y" using ceiling_correct [of y] by simp
    moreover have "y \<le> of_int (\<lceil>y\<rceil> - 1) + 1" using ceiling_correct [of y] by simp
    moreover have "(of_nat m :: rat) = of_int (\<lceil>y\<rceil> - 1)" using c2 by (simp add: m_def)
    ultimately show "of_nat m < y" "y \<le> of_nat m + 1" by simp_all
  qed
  have e: "exponent x = - int (bits m)"
    using False by (simp add: exponent_def m_def y_def)
  from bits_bounds [OF mpos] have lo: "2 ^ (bits m - 1) \<le> m" and hi: "m < 2 ^ bits m"
    by simp_all
  have bp: "0 < bits m" using mpos by (rule bits_pos)
  have "m + 1 \<le> 2 ^ bits m" using hi by simp
  then have "(of_nat (m + 1) :: rat) \<le> of_nat (2 ^ bits m)"
    by (simp only: of_nat_le_iff)
  then have "of_nat m + 1 \<le> (2::rat) ^ bits m" by simp
  then have yhi: "y \<le> 2 ^ bits m" using my by linarith
  have "(of_nat (2 ^ (bits m - 1)) :: rat) \<le> of_nat m"
    using lo by (simp only: of_nat_le_iff)
  then have "(2::rat) ^ (bits m - 1) \<le> of_nat m" by simp
  then have ylo: "2 ^ (bits m - 1) < y" using my by linarith
  have xy: "x = 1 / y" using assms by (simp add: y_def)
  have e1: "(2::rat) powi exponent x = 1 / 2 ^ bits m"
    by (simp add: e power_int_minus field_simps)
  have e2: "(2::rat) powi (exponent x + 1) = 1 / 2 ^ (bits m - 1)"
  proof -
    have "exponent x + 1 = - int (bits m - 1)" using bp by (simp add: e)
    then show ?thesis by (simp add: power_int_minus field_simps)
  qed
  have "1 / 2 ^ bits m \<le> 1 / y"
    using yhi y1 by (simp add: frac_le)
  then have 1: "2 powi exponent x \<le> x"
    using e1 xy by simp
  have "1 / y < 1 / 2 ^ (bits m - 1)"
    using ylo by (simp add: frac_less2)
  then have 2: "x < 2 powi (exponent x + 1)"
    using e2 xy by simp
  show ?thesis using 1 2 by simp
qed

lemma exponent_unique:
  assumes "0 < x" and "2 powi e \<le> x" and "x < 2 powi (e + 1)"
  shows "exponent x = e"
proof -
  from exponent_bounds [OF assms(1)]
  have lo: "2 powi exponent x \<le> x" and hi: "x < 2 powi (exponent x + 1)"
    by simp_all
  have "\<not> exponent x < e"
  proof
    assume "exponent x < e"
    then have "exponent x + 1 \<le> e" by simp
    then have "(2::rat) powi (exponent x + 1) \<le> 2 powi e"
      by (intro power_int_increasing) simp_all
    then show False using hi assms(2) by linarith
  qed
  moreover have "\<not> e < exponent x"
  proof
    assume "e < exponent x"
    then have "e + 1 \<le> exponent x" by simp
    then have "(2::rat) powi (e + 1) \<le> 2 powi exponent x"
      by (intro power_int_increasing) simp_all
    then show False using lo assms(3) by linarith
  qed
  ultimately show ?thesis by simp
qed


lemma round_half_even_floor:
  "\<lfloor>q\<rfloor> \<le> round_half_even q \<and> round_half_even q \<le> \<lfloor>q\<rfloor> + 1"
  by (simp add: round_half_even_def Let_def)

lemma round_half_even_of_int [simp]: "round_half_even (of_int n) = n"
  by (simp add: round_half_even_def Let_def)

lemma round_half_even_ge: "of_int m \<le> q \<Longrightarrow> m \<le> round_half_even q"
  using round_half_even_floor [of q] by (simp add: le_floor_iff [symmetric])

lemma round_half_even_le:
  assumes "q \<le> of_int m"
  shows "round_half_even q \<le> m"
proof (cases "q = of_int m")
  case True
  then show ?thesis by simp
next
  case False
  then have "q < of_int m" using assms by simp
  then have "\<lfloor>q\<rfloor> < m" by (simp add: floor_less_iff)
  then show ?thesis using round_half_even_floor [of q] by linarith
qed


lemma spacing_pos [simp]: "0 < spacing x"
  by (simp add: spacing_def)

lemma spacing_abs [simp]: "spacing \<bar>x\<bar> = spacing x" "spacing (- x) = spacing x"
  by (simp_all add: spacing_def)

lemma binary64_pos:
  "0 < x \<Longrightarrow> binary64 x = of_int (round_half_even (x / spacing x)) * spacing x"
  by (simp add: binary64_def)

lemma binary64_minus: "binary64 (- x) = - binary64 x"
  by (simp add: binary64_def sgn_minus)

lemma binary64_0 [simp]: "binary64 0 = 0"
  by (simp add: binary64_def)

text \<open>Rounding on a grid never crosses a point of the grid.\<close>

lemma grid_le:
  assumes "0 < u" and "x \<le> of_int m * u"
  shows "of_int (round_half_even (x / u)) * u \<le> of_int m * u"
proof -
  have "x / u \<le> of_int m" using assms by (simp add: field_simps)
  then have "round_half_even (x / u) \<le> m" by (rule round_half_even_le)
  then have "(of_int (round_half_even (x / u)) :: rat) \<le> of_int m" by simp
  then show ?thesis using assms(1) by (simp add: mult_right_mono)
qed



lemma spacing_grid: "spacing x = 2 powi grid_exponent x"
  by (simp add: spacing_def grid_exponent_def)

lemma pow2_split: "(2::rat) powi (a + b) = 2 powi a * 2 powi b"
  by (simp add: power_int_add)

lemma pow2_nat: "0 \<le> a \<Longrightarrow> (2::rat) powi a = of_int (2 ^ nat a)"
  by (simp add: power_int_def)



lemma spacing_nonzero [simp]: "spacing x \<noteq> 0"
  by (metis spacing_pos less_irrefl)

lemma binary64_on_grid:
  assumes "0 < x" and "x = of_int m * spacing x"
  shows "binary64 x = x"
proof -
  have "x / spacing x = of_int m"
    using assms(2) by (metis nonzero_mult_div_cancel_right spacing_nonzero)
  then have "binary64 x = of_int m * spacing x"
    using assms(1) by (simp add: binary64_pos)
  then show ?thesis using assms(2) by simp
qed

lemma pow2_less_cancel: "(2::rat) powi a < 2 powi b \<Longrightarrow> a < b"
proof (rule ccontr)
  assume lt: "(2::rat) powi a < 2 powi b" and "\<not> a < b"
  then have "b \<le> a" by simp
  then have "(2::rat) powi b \<le> 2 powi a" by (intro power_int_increasing) simp_all
  then show False using lt by simp
qed

lemma representable_pos:
  assumes "0 < n" and "n \<le> 2 ^ 53" and "- 1074 \<le> k"
  shows "binary64 (of_int n * 2 powi k) = of_int n * 2 powi k"
proof -
  define x :: rat where "x = of_int n * 2 powi k"
  have xpos: "0 < x" using assms(1) by (simp add: x_def)
  have ax: "\<bar>x\<bar> = x" using xpos by simp
  have "of_int n \<le> (2::rat) ^ 53" using assms(2) by (metis of_int_le_iff of_int_numeral of_int_power)
  then have "x \<le> 2 ^ 53 * 2 powi k"
    unfolding x_def by (intro mult_right_mono) simp_all
  also have "\<dots> = 2 powi (53 + k)" by (simp only: pow2_split) simp
  finally have le: "x \<le> 2 powi (53 + k)" .
  have "\<exists>m. x = of_int m * spacing x"
  proof (cases "x = 2 powi (53 + k)")
    case True
    have "exponent x = 53 + k"
    proof (rule exponent_unique [OF xpos])
      show "2 powi (53 + k) \<le> x" using True by simp
      show "x < 2 powi (53 + k + 1)"
        unfolding True by (intro power_int_strict_increasing) simp_all
    qed
    then have g: "grid_exponent x = 1 + k"
      using assms(3) by (simp add: grid_exponent_def ax)
    have "2 powi (53 + k) = 2 powi (52 + (1 + k))" by (simp add: algebra_simps)
    also have "\<dots> = (2::rat) powi 52 * 2 powi (1 + k)" by (simp only: pow2_split)
    also have "\<dots> = of_int (2 ^ 52) * spacing x" by (simp add: spacing_grid g)
    finally have "x = of_int (2 ^ 52) * spacing x" by (rule trans [OF True])
    then show ?thesis by (rule exI)
  next
    case False
    then have "x < 2 powi (53 + k)" using le by simp
    moreover have "2 powi exponent x \<le> x" using exponent_bounds [OF xpos] by simp
    ultimately have "(2::rat) powi exponent x < 2 powi (53 + k)" by simp
    then have "exponent x < 53 + k" by (rule pow2_less_cancel)
    then have g: "grid_exponent x \<le> k"
      using assms(3) by (simp add: grid_exponent_def ax)
    then have nonneg: "0 \<le> k - grid_exponent x" by simp
    have "k = (k - grid_exponent x) + grid_exponent x" by simp
    then have "(2::rat) powi k = 2 powi (k - grid_exponent x) * 2 powi grid_exponent x"
      by (metis pow2_split)
    then have "(2::rat) powi k = of_int (2 ^ nat (k - grid_exponent x)) * spacing x"
      by (simp only: spacing_grid pow2_nat [OF nonneg])
    then have "of_int n * 2 powi k
        = of_int (n * 2 ^ nat (k - grid_exponent x)) * spacing x"
      by simp
    then have "x = of_int (n * 2 ^ nat (k - grid_exponent x)) * spacing x"
      unfolding x_def .
    then show ?thesis by (rule exI)
  qed
  then obtain m where "x = of_int m * spacing x" by blast
  then have "binary64 x = x" by (rule binary64_on_grid [OF xpos])
  then show ?thesis by (simp add: x_def)
qed

lemma representable:
  assumes "\<bar>n\<bar> \<le> 2 ^ 53" and "- 1074 \<le> k"
  shows "binary64 (of_int n * 2 powi k) = of_int n * 2 powi k"
proof -
  consider "0 < n" | "n = 0" | "n < 0" by linarith
  then show ?thesis
  proof cases
    case 1
    then show ?thesis using assms by (intro representable_pos) simp_all
  next
    case 2
    then show ?thesis by simp
  next
    case 3
    then have "binary64 (of_int (- n) * 2 powi k) = of_int (- n) * 2 powi k"
      using assms by (intro representable_pos) simp_all
    then have "binary64 (- (of_int n * 2 powi k)) = - (of_int n * 2 powi k)"
      by simp
    then show ?thesis by (simp only: binary64_minus neg_equal_iff_equal)
  qed
qed

lemma binary64_of_int: "\<bar>n\<bar> \<le> 2 ^ 53 \<Longrightarrow> binary64 (of_int n) = of_int n"
  using representable [of n 0] by simp

lemma binary64_representable:
  "\<exists>n k. \<bar>n\<bar> \<le> 2 ^ 53 \<and> - 1074 \<le> k \<and> binary64 x = of_int n * 2 powi k"
proof -
  have pos: "\<exists>n k. \<bar>n\<bar> \<le> 2 ^ 53 \<and> - 1074 \<le> k \<and> binary64 x = of_int n * 2 powi k"
    if xpos: "0 < x" for x
  proof -
    have ax: "\<bar>x\<bar> = x" using xpos by simp
    define g where "g = grid_exponent x"
    define n where "n = round_half_even (x / spacing x)"
    have g: "- 1074 \<le> g" "exponent x + 1 \<le> 53 + g"
      by (simp_all add: g_def grid_exponent_def ax)
    have "x < 2 powi (exponent x + 1)" using exponent_bounds [OF xpos] by simp
    also have "\<dots> \<le> 2 powi (53 + g)"
      using g(2) by (intro power_int_increasing) simp_all
    also have "\<dots> = of_int (2 ^ 53) * spacing x"
      by (simp only: pow2_split) (simp add: spacing_grid g_def)
    finally have "x \<le> of_int (2 ^ 53) * spacing x" by simp
    from grid_le [OF spacing_pos this]
    have "of_int n * spacing x \<le> of_int (2 ^ 53) * spacing x"
      by (simp only: n_def)
    then have "(of_int n :: rat) \<le> of_int (2 ^ 53)"
      using spacing_pos [of x] by (simp only: mult_le_cancel_right_pos)
    then have "n \<le> 2 ^ 53" by (simp only: of_int_le_iff)
    moreover have "0 \<le> n"
      using xpos unfolding n_def
      by (intro round_half_even_ge) (simp add: less_imp_le)
    ultimately have "\<bar>n\<bar> \<le> 2 ^ 53" by simp
    moreover have "binary64 x = of_int n * 2 powi g"
      using xpos by (simp add: binary64_pos n_def spacing_grid g_def)
    ultimately show ?thesis using g(1) by blast
  qed
  consider "0 < x" | "x = 0" | "x < 0" by linarith
  then show ?thesis
  proof cases
    case 1
    then show ?thesis by (rule pos)
  next
    case 2
    have "\<bar>0::int\<bar> \<le> 2 ^ 53 \<and> - 1074 \<le> (0::int) \<and> binary64 x = of_int 0 * 2 powi 0"
      using 2 by simp
    then show ?thesis by blast
  next
    case 3
    then obtain n k where nk: "\<bar>n\<bar> \<le> 2 ^ 53" "- 1074 \<le> k"
        "binary64 (- x) = of_int n * 2 powi k"
      using pos [of "- x"] by auto
    then have "\<bar>- n\<bar> \<le> 2 ^ 53 \<and> - 1074 \<le> k \<and> binary64 x = of_int (- n) * 2 powi k"
      by (simp add: binary64_minus)
    then show ?thesis by blast
  qed
qed

lemma binary64_idem: "binary64 (binary64 x) = binary64 x"
proof -
  obtain n k where "\<bar>n\<bar> \<le> 2 ^ 53" "- 1074 \<le> k" "binary64 x = of_int n * 2 powi k"
    using binary64_representable [of x] by blast
  then show ?thesis by (simp add: representable)
qed

lemma rat_of_number_of: "rat_of (number_of x) = binary64 x"
  by (rule number_of.rep_eq)

lemma binary64_rat_of: "binary64 (rat_of x) = rat_of x"
proof -
  obtain z where "rat_of x = binary64 z"
    using rat_of [of x] by auto
  then show ?thesis by (simp add: binary64_idem)
qed

lemma number_of_rat_of: "number_of (rat_of x) = x"
  by (simp add: rat_of_inject [symmetric] rat_of_number_of binary64_rat_of)

lemma exponent_ge:
  assumes "2 powi e \<le> x"
  shows "e \<le> exponent x"
proof -
  have "(0::rat) < 2 powi e" by simp
  then have xpos: "0 < x" using assms by (rule less_le_trans)
  have "x < 2 powi (exponent x + 1)" using exponent_bounds [OF xpos] by simp
  then have "(2::rat) powi e < 2 powi (exponent x + 1)" using assms by simp
  then have "e < exponent x + 1" by (rule pow2_less_cancel)
  then show ?thesis by simp
qed

lemma large_integral_pos:
  assumes "2 ^ 52 \<le> x" and "binary64 x = x"
  shows "\<exists>m. x = of_int m"
proof -
  have xpos: "0 < x" using assms(1) by simp
  have "(2::rat) powi 52 \<le> x" using assms(1) by simp
  then have "52 \<le> exponent x" by (rule exponent_ge)
  then have g: "0 \<le> grid_exponent x"
    using xpos by (simp add: grid_exponent_def)
  have "x = of_int (round_half_even (x / spacing x)) * spacing x"
    using assms(2) xpos by (simp add: binary64_pos)
  then have "x = of_int (round_half_even (x / spacing x) * 2 ^ nat (grid_exponent x))"
    by (simp add: spacing_grid pow2_nat [OF g])
  then show ?thesis by (rule exI)
qed

lemma rat_of_Math_round: "rat_of (Math_round x) = of_int \<lfloor>rat_of x + 1 / 2\<rfloor>"
proof -
  define v where "v = rat_of x"
  have rep: "binary64 v = v" by (simp add: v_def binary64_rat_of)
  have "binary64 (of_int \<lfloor>v + 1 / 2\<rfloor>) = of_int \<lfloor>v + 1 / 2\<rfloor>"
  proof -
    consider "2 ^ 52 \<le> v" | "v \<le> - (2 ^ 52)" | "- (2 ^ 52) < v" "v < 2 ^ 52"
      by linarith
    then show ?thesis
    proof cases
      case 1
      then obtain m where m: "v = of_int m"
        using large_integral_pos [OF _ rep] by blast
      have "\<lfloor>v + 1 / 2\<rfloor> = m" unfolding m by (rule floor_unique) simp_all
      then show ?thesis using rep m by simp
    next
      case 2
      then have "2 ^ 52 \<le> - v" by simp
      moreover have "binary64 (- v) = - v" by (simp add: binary64_minus rep)
      ultimately obtain m where m: "- v = of_int m"
        using large_integral_pos by blast
      then have m': "v = of_int (- m)" by simp
      have "\<lfloor>v + 1 / 2\<rfloor> = - m" unfolding m' by (rule floor_unique) simp_all
      then show ?thesis using rep m' by simp
    next
      case 3
      define n where "n = \<lfloor>v + 1 / 2\<rfloor>"
      have "v + 1 / 2 < 2 ^ 52 + 1" using 3(2) by simp
      then have "v + 1 / 2 < of_int (2 ^ 52 + 1)" by simp
      then have "n < 2 ^ 52 + 1" unfolding n_def by (simp only: floor_less_iff)
      moreover have "of_int (- (2 ^ 52)) \<le> v + 1 / 2" using 3(1) by simp
      then have "- (2 ^ 52) \<le> n" unfolding n_def by (simp only: le_floor_iff)
      ultimately have "\<bar>n\<bar> \<le> 2 ^ 53" by simp
      then have "binary64 (of_int n) = of_int n" by (rule binary64_of_int)
      then show ?thesis by (simp only: n_def)
    qed
  qed
  then show ?thesis by (simp add: Math_round_def rat_of_number_of v_def)
qed



lemma round_half_even_nearest:
  assumes "of_int n - 1 / 2 < q" and "q < of_int n + 1 / 2"
  shows "round_half_even q = n"
proof (cases "of_int n \<le> q")
  case True
  then have "\<lfloor>q\<rfloor> = n" using assms(2) by (intro floor_unique) simp_all
  then show ?thesis using assms(2) by (simp add: round_half_even_def Let_def)
next
  case False
  then have "\<lfloor>q\<rfloor> = n - 1" using assms(1) by (intro floor_unique) simp_all
  then show ?thesis using assms(1) by (simp add: round_half_even_def Let_def)
qed

lemma binary64_value:
  assumes "2 powi e \<le> x" and "x < 2 powi (e + 1)"
    and "g = max (e - 52) (- 1074)"
    and "of_int n - 1 / 2 < x / 2 powi g" and "x / 2 powi g < of_int n + 1 / 2"
  shows "binary64 x = of_int n * 2 powi g"
proof -
  have "(0::rat) < 2 powi e" by simp
  then have xpos: "0 < x" using assms(1) by (rule less_le_trans)
  have "exponent x = e" using xpos assms(1,2) by (rule exponent_unique)
  then have "spacing x = 2 powi g"
    using xpos assms(3) by (simp add: spacing_def)
  moreover have "round_half_even (x / 2 powi g) = n"
    using assms(4,5) by (rule round_half_even_nearest)
  ultimately show ?thesis using xpos by (simp add: binary64_pos)
qed


lemma round_half_even_error: "\<bar>of_int (round_half_even q) - q\<bar> \<le> 1 / 2"
proof -
  have "of_int \<lfloor>q\<rfloor> \<le> q" "q < of_int \<lfloor>q\<rfloor> + 1"
    using floor_correct [of q] by simp_all
  then show ?thesis
    by (auto simp: round_half_even_def Let_def abs_le_iff)
qed

lemma binary64_error: "\<bar>binary64 x - x\<bar> \<le> spacing x / 2"
proof -
  have pos: "\<bar>binary64 x - x\<bar> \<le> spacing x / 2" if xpos: "0 < x" for x
  proof -
    define u where "u = spacing x"
    have upos: "0 < u" by (simp add: u_def)
    have "binary64 x - x = (of_int (round_half_even (x / u)) - x / u) * u"
      using upos by (simp add: binary64_pos [OF xpos] u_def [symmetric] algebra_simps)
    then have "\<bar>binary64 x - x\<bar> = \<bar>of_int (round_half_even (x / u)) - x / u\<bar> * u"
      using upos by (simp add: abs_mult)
    also have "\<dots> \<le> 1 / 2 * u"
      using upos by (intro mult_right_mono round_half_even_error) simp
    finally show ?thesis by (simp add: u_def)
  qed
  consider "0 < x" | "x = 0" | "x < 0" by linarith
  then show ?thesis
  proof cases
    case 1
    then show ?thesis by (rule pos)
  next
    case 2
    then show ?thesis by (simp add: less_imp_le)
  next
    case 3
    then have "\<bar>binary64 (- x) - (- x)\<bar> \<le> spacing (- x) / 2"
      by (intro pos) simp
    moreover have "spacing (- x) = spacing x" by (simp add: spacing_def)
    moreover have "\<bar>binary64 (- x) - (- x)\<bar> = \<bar>binary64 x - x\<bar>"
      by (simp add: binary64_minus abs_minus_commute)
    ultimately show ?thesis by simp
  qed
qed

lemma binary64_numeral [simp]:
  "numeral k \<le> (2::int) ^ 53 \<Longrightarrow> binary64 (numeral k) = numeral k"
  using binary64_of_int [of "numeral k"] by simp

lemma binary64_1 [simp]: "binary64 1 = 1"
  using binary64_of_int [of 1] by simp




text \<open>The numbers of the examples.\<close>

lemma binary64_18_6: "binary64 (186 / 10) = 5235434566818202 * 2 powi (- 48)"
proof -
  have "binary64 (186 / 10) = of_int 5235434566818202 * 2 powi (- 48)"
  proof (rule binary64_value [where e = 4])
    show "(2::rat) powi 4 \<le> 186 / 10" by simp
    show "186 / 10 < (2::rat) powi (4 + 1)" by simp
    show "- 48 = max (4 - 52) (- 1074 :: int)" by simp
    show "of_int 5235434566818202 - 1 / 2 < (186 / 10) / (2::rat) powi (- 48)"
      by (simp add: power_int_minus)
    show "(186 / 10) / (2::rat) powi (- 48) < of_int 5235434566818202 + 1 / 2"
      by (simp add: power_int_minus)
  qed
  then show ?thesis by simp
qed

lemma binary64_18_4: "binary64 (184 / 10) = 5179139571476070 * 2 powi (- 48)"
proof -
  have "binary64 (184 / 10) = of_int 5179139571476070 * 2 powi (- 48)"
  proof (rule binary64_value [where e = 4])
    show "(2::rat) powi 4 \<le> 184 / 10" by simp
    show "184 / 10 < (2::rat) powi (4 + 1)" by simp
    show "- 48 = max (4 - 52) (- 1074 :: int)" by simp
    show "of_int 5179139571476070 - 1 / 2 < (184 / 10) / (2::rat) powi (- 48)"
      by (simp add: power_int_minus)
    show "(184 / 10) / (2::rat) powi (- 48) < of_int 5179139571476070 + 1 / 2"
      by (simp add: power_int_minus)
  qed
  then show ?thesis by simp
qed

lemma binary64_10_8: "binary64 (108 / 10) = 6079859496950170 * 2 powi (- 49)"
proof -
  have "binary64 (108 / 10) = of_int 6079859496950170 * 2 powi (- 49)"
  proof (rule binary64_value [where e = 3])
    show "(2::rat) powi 3 \<le> 108 / 10" by simp
    show "108 / 10 < (2::rat) powi (3 + 1)" by simp
    show "- 49 = max (3 - 52) (- 1074 :: int)" by simp
    show "of_int 6079859496950170 - 1 / 2 < (108 / 10) / (2::rat) powi (- 49)"
      by (simp add: power_int_minus)
    show "(108 / 10) / (2::rat) powi (- 49) < of_int 6079859496950170 + 1 / 2"
      by (simp add: power_int_minus)
  qed
  then show ?thesis by simp
qed

lemma binary64_3_6: "binary64 (36 / 10) = 8106479329266893 * 2 powi (- 51)"
proof -
  have "binary64 (36 / 10) = of_int 8106479329266893 * 2 powi (- 51)"
  proof (rule binary64_value [where e = 1])
    show "(2::rat) powi 1 \<le> 36 / 10" by simp
    show "36 / 10 < (2::rat) powi (1 + 1)" by simp
    show "- 51 = max (1 - 52) (- 1074 :: int)" by simp
    show "of_int 8106479329266893 - 1 / 2 < (36 / 10) / (2::rat) powi (- 51)"
      by (simp add: power_int_minus)
    show "(36 / 10) / (2::rat) powi (- 51) < of_int 8106479329266893 + 1 / 2"
      by (simp add: power_int_minus)
  qed
  then show ?thesis by simp
qed

lemma binary64_23_4: "binary64 (234 / 10) = 6586514455029350 * 2 powi (- 48)"
proof -
  have "binary64 (234 / 10) = of_int 6586514455029350 * 2 powi (- 48)"
  proof (rule binary64_value [where e = 4])
    show "(2::rat) powi 4 \<le> 234 / 10" by simp
    show "234 / 10 < (2::rat) powi (4 + 1)" by simp
    show "- 48 = max (4 - 52) (- 1074 :: int)" by simp
    show "of_int 6586514455029350 - 1 / 2 < (234 / 10) / (2::rat) powi (- 48)"
      by (simp add: power_int_minus)
    show "(234 / 10) / (2::rat) powi (- 48) < of_int 6586514455029350 + 1 / 2"
      by (simp add: power_int_minus)
  qed
  then show ?thesis by simp
qed

lemma quotient_10_8:
  "binary64 (binary64 (108 / 10) / binary64 (36 / 10)) = 3"
proof -
  define q :: rat where "q = 6079859496950170 * 2 powi (- 49) / (8106479329266893 * 2 powi (- 51))"
  have "binary64 q = of_int 6755399441055744 * 2 powi (- 51)"
  proof (rule binary64_value [where e = 1])
    show "2 powi 1 \<le> q" by (simp add: q_def power_int_minus)
    show "q < 2 powi (1 + 1)" by (simp add: q_def power_int_minus)
    show "- 51 = max (1 - 52) (- 1074 :: int)" by simp
    show "of_int 6755399441055744 - 1 / 2 < q / 2 powi (- 51)"
      by (simp add: q_def power_int_minus)
    show "q / 2 powi (- 51) < of_int 6755399441055744 + 1 / 2"
      by (simp add: q_def power_int_minus)
  qed
  also have "\<dots> = 3" by (simp add: power_int_minus)
  finally show ?thesis unfolding binary64_10_8 binary64_3_6 q_def .
qed

lemma quotient_23_4:
  "binary64 (binary64 (234 / 10) / binary64 (36 / 10)) = 7318349394477055 * 2 powi (- 50)"
proof -
  define q :: rat where "q = 6586514455029350 * 2 powi (- 48) / (8106479329266893 * 2 powi (- 51))"
  have "binary64 q = of_int 7318349394477055 * 2 powi (- 50)"
  proof (rule binary64_value [where e = 2])
    show "2 powi 2 \<le> q" by (simp add: q_def power_int_minus)
    show "q < 2 powi (2 + 1)" by (simp add: q_def power_int_minus)
    show "- 50 = max (2 - 52) (- 1074 :: int)" by simp
    show "of_int 7318349394477055 - 1 / 2 < q / 2 powi (- 50)"
      by (simp add: q_def power_int_minus)
    show "q / 2 powi (- 50) < of_int 7318349394477055 + 1 / 2"
      by (simp add: q_def power_int_minus)
  qed
  also have "\<dots> = 7318349394477055 * 2 powi (- 50)" by (simp add: power_int_minus)
  finally show ?thesis unfolding binary64_23_4 binary64_3_6 q_def .
qed

section \<open>Properties of the map model\<close>

lemma map_of_map_put: "map_of (map_put k v m) k' = (if k' = k then Some v else map_of m k')"
  by (induction m) auto

lemma map_of_map_delete: "map_of (map_delete k m) k' = (if k' = k then None else map_of m k')"
  by (induction m) (auto simp: map_delete_def)

lemma map_keys_map_delete: "map_keys (map_delete k m) = filter (\<lambda>x. x \<noteq> k) (map_keys m)"
  by (induction m) (auto simp: map_delete_def map_keys_def)

lemma map_keys_map_put:
  "map_keys (map_put k v m) = (if k \<in> set (map_keys m) then map_keys m else map_keys m @ [k])"
  by (induction m) (auto simp: map_keys_def)

lemma distinct_map_put: "distinct (map_keys m) \<Longrightarrow> distinct (map_keys (map_put k v m))"
  by (simp add: map_keys_map_put)

lemma distinct_map_delete: "distinct (map_keys m) \<Longrightarrow> distinct (map_keys (map_delete k m))"
  by (simp add: map_keys_map_delete)

lemma distinct_cache_set:
  "distinct (map_keys (cache c)) \<Longrightarrow> distinct (map_keys (cache (cache_set ver now key val c)))"
  by (auto simp: cache_set_def Let_def distinct_map_put distinct_map_delete split: list.splits)

lemma distinct_cache_get:
  "distinct (map_keys (cache c)) \<Longrightarrow> distinct (map_keys (cache (snd (cache_get ver key c))))"
  by (auto simp: cache_get_def distinct_map_put distinct_map_delete split: option.splits)

lemma cache_get_after_set:
  "cache_get ver key (cache_set ver now key val c) =
     (Some \<lparr>data = val, timestamp = now, version = ver\<rparr>,
      (cache_set ver now key val c)
        \<lparr>cache := map_put key \<lparr>data = val, timestamp = now, version = ver\<rparr>
           (map_delete key (cache (cache_set ver now key val c)))\<rparr>)"
  by (simp add: cache_get_def map_get_def cache_set_def Let_def map_of_map_put)

section \<open>Claims about the cache\<close>

text \<open>
  C6. A \<open>set(key, value)\<close> followed at once by \<open>get(key)\<close> under the same live
  version returns an entry: its data is the stored value, its timestamp the instant of
  the \<open>set\<close>, and the caller's freshness test \<open>isCacheValid\<close> accepts it exactly while
  fewer than \<open>CACHE_DURATION\<close> milliseconds have passed.
\<close>

theorem set_then_get_returns_value:
  "\<exists>e. fst (cache_get ver key (cache_set ver now key val c)) = Some e
       \<and> data e = val \<and> timestamp e = now \<and> version e = ver
       \<and> isCacheValid later (timestamp e) = (later - now < CACHE_DURATION)"
  by (simp add: cache_get_after_set isCacheValid_def)

text \<open>
  C7. Once the live version differs from the version stored in a key's entry,
  \<open>get(key)\<close> reports the key absent and deletes its entry, whatever the entry's
  timestamp is; every other key keeps its entry.
\<close>

theorem get_other_version_absent:
  assumes "map_get (cache c) key = Some e" and "version e \<noteq> ver"
  shows "fst (cache_get ver key c) = None
       \<and> map_get (cache (snd (cache_get ver key c))) key = None
       \<and> key \<notin> set (map_keys (cache (snd (cache_get ver key c))))
       \<and> (\<forall>k. k \<noteq> key \<longrightarrow>
             map_get (cache (snd (cache_get ver key c))) k = map_get (cache c) k)"
  using assms
  by (simp add: cache_get_def map_get_def map_of_map_delete map_keys_map_delete)

theorem get_other_version_absent_witness:
  "fst (cache_get ''2.0.0'' ''weather_paris''
         \<lparr>cache = [(''weather_paris'', \<lparr>data = (19::int), timestamp = 1000, version = ''1.0.0''\<rparr>),
                   (''weather_rome'', \<lparr>data = 25, timestamp = 900, version = ''2.0.0''\<rparr>)],
          maxSize = 50\<rparr>) = None
   \<and> isCacheValid 1001 1000
   \<and> map_keys (cache (snd (cache_get ''2.0.0'' ''weather_paris''
         \<lparr>cache = [(''weather_paris'', \<lparr>data = (19::int), timestamp = 1000, version = ''1.0.0''\<rparr>),
                   (''weather_rome'', \<lparr>data = 25, timestamp = 900, version = ''2.0.0''\<rparr>)],
          maxSize = 50\<rparr>))) = [''weather_rome'']"
  using get_other_version_absent
    [of "\<lparr>cache = [(''weather_paris'', \<lparr>data = (19::int), timestamp = 1000, version = ''1.0.0''\<rparr>),
                   (''weather_rome'', \<lparr>data = 25, timestamp = 900, version = ''2.0.0''\<rparr>)],
          maxSize = 50\<rparr>"
        "''weather_paris''" "\<lparr>data = (19::int), timestamp = 1000, version = ''1.0.0''\<rparr>" "''2.0.0''"]
  by (simp add: cache_get_def map_get_def map_delete_def map_keys_def isCacheValid_def
      CACHE_DURATION_def)

text \<open>
  C1, as the specification states it (eviction in insertion order, a hit on the
  oldest-inserted key does not protect it), fails: with capacity 2, after
  \<open>set a\<close>, \<open>set b\<close>, a hit \<open>get a\<close> and \<open>set c\<close>, the oldest-inserted key
  \<open>a\<close> is still cached and \<open>b\<close> has been evicted.
\<close>

theorem eviction_not_insertion_order_counterexample:
  "map_keys (cache (cache_set ''1.0.0'' 2 ''b'' (2::int)
      (cache_set ''1.0.0'' 1 ''a'' 1 (new_LRUCache 2)))) = [''a'', ''b'']
   \<and> fst (cache_get ''1.0.0'' ''a''
         (cache_set ''1.0.0'' 2 ''b'' (2::int)
            (cache_set ''1.0.0'' 1 ''a'' 1 (new_LRUCache 2))))
       = Some \<lparr>data = 1, timestamp = 1, version = ''1.0.0''\<rparr>
   \<and> map_keys (cache (cache_set ''1.0.0'' 4 ''c'' (3::int)
      (snd (cache_get ''1.0.0'' ''a''
         (cache_set ''1.0.0'' 2 ''b'' 2
            (cache_set ''1.0.0'' 1 ''a'' 1 (new_LRUCache 2))))))) = [''a'', ''c'']"
  by (simp add: cache_set_def cache_get_def new_LRUCache_def map_keys_def map_get_def
      map_delete_def Let_def)

text \<open>
  C1, amended. When \<open>set\<close> is called with the cache at capacity and the first key of
  the cache's iteration order is a non-empty string, the one entry evicted is that first
  key. The iteration order is the insertion order changed by every hit of \<open>get\<close>: a hit
  moves its key to the end. So eviction follows least recent use (insertion of a new key
  or hit), and a hit on the oldest-inserted key does protect it: the next \<open>set\<close> of a
  new key at capacity evicts the key that follows it.
\<close>

theorem set_at_capacity_evicts_first_of_order:
  assumes "cache c = (k0, e0) # rest" and "maxSize c \<le> length (cache c)"
    and "k0 \<noteq> []" and "distinct (map_keys (cache c))"
  shows "map_keys (cache (cache_set ver now key val c)) =
           (if key \<in> set (map_keys rest) then map_keys rest else map_keys rest @ [key])
       \<and> (\<forall>k e. map_get (cache c) k = Some e \<and> version e = ver \<longrightarrow>
             fst (cache_get ver k c) = Some e
             \<and> map_keys (cache (snd (cache_get ver k c))) =
                 filter (\<lambda>x. x \<noteq> k) (map_keys (cache c)) @ [k])
       \<and> (\<forall>k1 e1 rest'. rest = (k1, e1) # rest' \<and> k1 \<noteq> [] \<and> version e0 = ver
               \<and> key \<notin> set (map_keys (cache c)) \<longrightarrow>
             map_keys (cache (cache_set ver now key val (snd (cache_get ver k0 c)))) =
               map_keys rest' @ [k0, key])"
proof -
  have keys: "map_keys (cache c) = k0 # map_keys rest"
    using assms(1) by (simp add: map_keys_def)
  have k0_fresh: "k0 \<notin> set (map_keys rest)"
    using assms(4) keys by simp
  have filter_rest: "filter (\<lambda>x. x \<noteq> k0) (map_keys rest) = map_keys rest"
    using k0_fresh by (auto simp: filter_id_conv)
  have evict: "map_keys (cache (cache_set ver now key val c)) =
           (if key \<in> set (map_keys rest) then map_keys rest else map_keys rest @ [key])"
    using assms(2,3) keys filter_rest
    by (simp add: cache_set_def Let_def map_keys_map_put map_keys_map_delete)
  have hit: "fst (cache_get ver k c) = Some e
             \<and> map_keys (cache (snd (cache_get ver k c))) =
                 filter (\<lambda>x. x \<noteq> k) (map_keys (cache c)) @ [k]"
    if "map_get (cache c) k = Some e" and "version e = ver" for k e
    using that by (simp add: cache_get_def map_keys_map_put map_keys_map_delete)
  have protect: "map_keys (cache (cache_set ver now key val (snd (cache_get ver k0 c)))) =
               map_keys rest' @ [k0, key]"
    if r: "rest = (k1, e1) # rest'" and k1: "k1 \<noteq> []" and v: "version e0 = ver"
      and fresh: "key \<notin> set (map_keys (cache c))" for k1 e1 rest'
  proof -
    have look: "map_get (cache c) k0 = Some e0"
      using assms(1) by (simp add: map_get_def)
    let ?c' = "snd (cache_get ver k0 c)"
    have order: "map_keys (cache ?c') = k1 # map_keys rest' @ [k0]"
      using hit [OF look v] keys filter_rest r by (simp add: map_keys_def)
    have size: "maxSize ?c' \<le> length (cache ?c')"
    proof -
      have "length (cache ?c') = length (map_keys (cache ?c'))"
        by (simp add: map_keys_def)
      also have "\<dots> = length (cache c)"
        using order assms(1) r by (simp add: map_keys_def)
      finally have "length (cache ?c') = length (cache c)" .
      moreover have "maxSize ?c' = maxSize c"
        using look v by (simp add: cache_get_def)
      ultimately show ?thesis using assms(2) by simp
    qed
    have d: "distinct (map_keys (cache ?c'))"
      using assms(4) by (rule distinct_cache_get)
    have k1_rest: "filter (\<lambda>x. x \<noteq> k1) (map_keys rest' @ [k0]) = map_keys rest' @ [k0]"
      using d order by (auto simp: filter_id_conv)
    have "map_keys (cache c) = k0 # k1 # map_keys rest'"
      using keys r by (simp add: map_keys_def)
    then have "key \<notin> set (map_keys rest' @ [k0])"
      using fresh by auto
    then show ?thesis
      using size k1 order k1_rest
      by (simp add: cache_set_def Let_def map_keys_map_put map_keys_map_delete)
  qed
  show ?thesis
    using evict hit protect by blast
qed

theorem set_at_capacity_evicts_first_of_order_witness:
  "map_keys (cache (cache_set ''1.0.0'' 4 ''c'' (3::int)
      \<lparr>cache = [(''a'', \<lparr>data = 1, timestamp = 1, version = ''1.0.0''\<rparr>),
                (''b'', \<lparr>data = 2, timestamp = 2, version = ''1.0.0''\<rparr>)],
       maxSize = 2\<rparr>)) = [''b'', ''c'']
   \<and> map_keys (cache (cache_set ''1.0.0'' 4 ''c'' (3::int)
        (snd (cache_get ''1.0.0'' ''a''
          \<lparr>cache = [(''a'', \<lparr>data = 1, timestamp = 1, version = ''1.0.0''\<rparr>),
                    (''b'', \<lparr>data = 2, timestamp = 2, version = ''1.0.0''\<rparr>)],
           maxSize = 2\<rparr>)))) = [''a'', ''c'']"
  using set_at_capacity_evicts_first_of_order
    [of "\<lparr>cache = [(''a'', \<lparr>data = (1::int), timestamp = 1, version = ''1.0.0''\<rparr>),
                    (''b'', \<lparr>data = 2, timestamp = 2, version = ''1.0.0''\<rparr>)],
           maxSize = 2\<rparr>"
        "''a''" "\<lparr>data = (1::int), timestamp = 1, version = ''1.0.0''\<rparr>"
        "[(''b'', \<lparr>data = 2, timestamp = 2, version = ''1.0.0''\<rparr>)]"
        "''1.0.0''" 4 "''c''" 3]
  by (simp add: map_keys_def)


section \<open>Claims about the rate limiter\<close>

lemma canMakeRequest_in_window:
  "now - limiter_lastReset rl \<le> 60000 \<Longrightarrow>
   canMakeRequest now now' rl = (requests rl < RATE_LIMIT, rl\<lparr>requests := requests rl + 1\<rparr>)"
  by (simp add: canMakeRequest_def)

lemma canMakeRequest_reset:
  "60000 < now - limiter_lastReset rl \<Longrightarrow>
   canMakeRequest now now' rl = (True, \<lparr>requests = 1, limiter_lastReset = now'\<rparr>)"
  by (simp add: canMakeRequest_def RATE_LIMIT_def)

lemma upt_0_Suc_map: "[0..<Suc n] = 0 # map Suc [0..<n]"
proof -
  have "[0..<Suc n] = 0 # [Suc 0..<Suc n]"
    by (rule upt_conv_Cons) simp
  then show ?thesis
    by (simp only: map_Suc_upt)
qed

lemma calls_in_window:
  "\<forall>t\<in>set ts. fst t - limiter_lastReset rl \<le> 60000 \<Longrightarrow>
   canMakeRequest_calls ts rl =
     (map (\<lambda>i. requests rl + i < RATE_LIMIT) [0..<length ts],
      rl\<lparr>requests := requests rl + length ts\<rparr>)"
proof (induction ts arbitrary: rl)
  case Nil
  then show ?case by simp
next
  case (Cons t ts)
  obtain now now' where t: "t = (now, now')"
    by (cases t)
  let ?rl1 = "rl\<lparr>requests := requests rl + 1\<rparr>"
  have step: "canMakeRequest now now' rl = (requests rl < RATE_LIMIT, ?rl1)"
    using Cons.prems t by (simp add: canMakeRequest_in_window)
  have "\<forall>u\<in>set ts. fst u - limiter_lastReset ?rl1 \<le> 60000"
    using Cons.prems by simp
  then have rest: "canMakeRequest_calls ts ?rl1 =
     (map (\<lambda>i. requests ?rl1 + i < RATE_LIMIT) [0..<length ts],
      ?rl1\<lparr>requests := requests ?rl1 + length ts\<rparr>)"
    by (rule Cons.IH)
  show ?case
    using step rest t by (simp add: upt_0_Suc_map comp_def del: upt_Suc)
qed

text \<open>
  C4. From a window just opened (no request counted yet), for any calls whose clock
  readings are all within 60 seconds of the window start, the call number \<open>i\<close>
  (from 0) answers true exactly when \<open>i < 30\<close>: the first 30 calls are allowed and
  every later one is refused. A call made more than 60 seconds after the window start
  resets the count and sets the window start to its own clock reading; it is allowed, and
  of the calls that follow it within the new window exactly the first 29 are allowed, so
  30 calls are allowed again.
\<close>

theorem rate_limit_window:
  "(requests rl = 0 \<and> (\<forall>t\<in>set ts. fst t - limiter_lastReset rl \<le> 60000) \<longrightarrow>
      fst (canMakeRequest_calls ts rl) = map (\<lambda>i. i < 30) [0..<length ts])
   \<and> (60000 < now - limiter_lastReset rl \<longrightarrow>
        canMakeRequest now now' rl = (True, \<lparr>requests = 1, limiter_lastReset = now'\<rparr>)
        \<and> ((\<forall>t\<in>set ts. fst t - now' \<le> 60000) \<longrightarrow>
             fst (canMakeRequest_calls ((now, now') # ts) rl)
               = map (\<lambda>i. i < 30) [0..<Suc (length ts)]))"
proof (intro conjI impI)
  assume "requests rl = 0 \<and> (\<forall>t\<in>set ts. fst t - limiter_lastReset rl \<le> 60000)"
  then show "fst (canMakeRequest_calls ts rl) = map (\<lambda>i. i < 30) [0..<length ts]"
    by (simp add: calls_in_window RATE_LIMIT_def)
next
  assume "60000 < now - limiter_lastReset rl"
  then show "canMakeRequest now now' rl = (True, \<lparr>requests = 1, limiter_lastReset = now'\<rparr>)"
    by (rule canMakeRequest_reset)
next
  assume late: "60000 < now - limiter_lastReset rl"
    and win: "\<forall>t\<in>set ts. fst t - now' \<le> 60000"
  let ?rl1 = "\<lparr>requests = 1, limiter_lastReset = now'\<rparr>"
  have "canMakeRequest_calls ts ?rl1 =
     (map (\<lambda>i. requests ?rl1 + i < RATE_LIMIT) [0..<length ts],
      ?rl1\<lparr>requests := requests ?rl1 + length ts\<rparr>)"
    using win by (intro calls_in_window) simp
  then show "fst (canMakeRequest_calls ((now, now') # ts) rl)
      = map (\<lambda>i. i < 30) [0..<Suc (length ts)]"
    using canMakeRequest_reset [OF late, of now']
    by (simp add: upt_0_Suc_map comp_def RATE_LIMIT_def del: upt_Suc)
qed

theorem rate_limit_window_witness:
  "fst (canMakeRequest_calls (replicate 31 (100, 100)) \<lparr>requests = 0, limiter_lastReset = 0\<rparr>)
     = replicate 30 True @ [False]
   \<and> canMakeRequest 60001 60002 \<lparr>requests = 31, limiter_lastReset = 0\<rparr>
     = (True, \<lparr>requests = 1, limiter_lastReset = 60002\<rparr>)
   \<and> fst (canMakeRequest_calls ((60001, 60002) # replicate 30 (60003, 60003))
        \<lparr>requests = 31, limiter_lastReset = 0\<rparr>)
     = replicate 30 True @ [False]"
  using rate_limit_window [of "\<lparr>requests = 0, limiter_lastReset = 0\<rparr>" "replicate 31 (100, 100)"
      60001 60002]
    rate_limit_window [of "\<lparr>requests = 31, limiter_lastReset = 0\<rparr>"
      "replicate 30 (60003, 60003)" 60001 60002]
  by (simp add: canMakeRequest_def RATE_LIMIT_def numeral_eq_Suc)

section \<open>Claims about the usage counter\<close>















section \<open>Claims about the request wrapper\<close>

lemma fetch_loop_counter:
  "apiCounter (snd (fetch_loop net today url msg a le w)) =
     (if a = 0 then increment today (apiCounter w) else apiCounter w)"
proof (induction net today url msg a le w rule: fetch_loop.induct)
  case (1 net today url msg a le w)
  show ?case
    by (subst fetch_loop.simps) (use 1 in \<open>auto simp: Let_def split: sum.splits\<close>)
qed

lemma fetch_loop_frame:
  "rateLimiter (snd (fetch_loop net today url msg a le w)) = rateLimiter w
   \<and> cityCache (snd (fetch_loop net today url msg a le w)) = cityCache w
   \<and> weatherCache (snd (fetch_loop net today url msg a le w)) = weatherCache w"
proof (induction net today url msg a le w rule: fetch_loop.induct)
  case (1 net today url msg a le w)
  show ?case
    by (subst (1 2 3) fetch_loop.simps) (use 1 in \<open>auto simp: Let_def split: sum.splits\<close>)
qed

lemma fetch_loop_attempts:
  "a \<le> maxRetries RETRY_CONFIG \<Longrightarrow>
   length (fetched w) < length (fetched (snd (fetch_loop net today url msg a le w)))"
proof (induction net today url msg a le w rule: fetch_loop.induct)
  case (1 net today url msg a le w)
  let ?w1 = "(if a = 0 then w\<lparr>apiCounter := increment today (apiCounter w)\<rparr> else w)"
  let ?w2 = "?w1\<lparr>fetched := fetched ?w1 @ [url]\<rparr>"
  show ?case
  proof (cases "attempt_result msg (net url a)")
    case (Inr d)
    then show ?thesis
      using "1.prems" by (subst fetch_loop.simps) (simp add: Let_def)
  next
    case (Inl err)
    show ?thesis
    proof (cases "should_retry err \<and> a \<noteq> maxRetries RETRY_CONFIG")
      case False
      then show ?thesis
        using "1.prems" Inl by (subst fetch_loop.simps) (auto simp: Let_def)
    next
      case True
      let ?w3 = "?w2\<lparr>delays := delays ?w2 @ [getRetryDelay a]\<rparr>"
      have "a + 1 \<le> maxRetries RETRY_CONFIG"
        using True "1.prems" by simp
      then have "length (fetched ?w3)
          < length (fetched (snd (fetch_loop net today url msg (a + 1) (Some err) ?w3)))"
        using "1.IH" [OF "1.prems" refl refl Inl] True by simp
      moreover have "fetch_loop net today url msg a le w =
          fetch_loop net today url msg (a + 1) (Some err) ?w3"
        using True "1.prems" Inl by (subst fetch_loop.simps) (simp add: Let_def)
      ultimately show ?thesis
        by (simp split: if_splits)
    qed
  qed
qed

lemma fetch_loop_run:
  assumes "k \<le> maxRetries RETRY_CONFIG" and "a \<le> k"
    and "\<forall>i. a \<le> i \<and> i < k \<longrightarrow> retryable_failure (attempt_result msg (net url i))"
    and "k = maxRetries RETRY_CONFIG \<or> \<not> retryable_failure (attempt_result msg (net url k))"
  shows "fst (fetch_loop net today url msg a le w) = final_result (attempt_result msg (net url k))
       \<and> fetched (snd (fetch_loop net today url msg a le w)) = fetched w @ replicate (Suc k - a) url
       \<and> delays (snd (fetch_loop net today url msg a le w)) = delays w @ map getRetryDelay [a..<k]"
  using assms
proof (induction "k - a" arbitrary: a le w)
  case 0
  then have "a = k" by simp
  then show ?case
    using "0.prems"
    by (subst (1 2 3) fetch_loop.simps)
      (auto simp: Let_def final_result_def retryable_failure_def split: sum.splits)
next
  case (Suc n)
  then have lt: "a < k" by simp
  then have r: "retryable_failure (attempt_result msg (net url a))"
    using Suc.prems by simp
  then obtain err where err: "attempt_result msg (net url a) = Inl err" "should_retry err"
    by (auto simp: retryable_failure_def split: sum.splits)
  let ?w1 = "(if a = 0 then w\<lparr>apiCounter := increment today (apiCounter w)\<rparr> else w)"
  let ?w3 = "?w1\<lparr>fetched := fetched ?w1 @ [url], delays := delays ?w1 @ [getRetryDelay a]\<rparr>"
  have unfold: "fetch_loop net today url msg a le w = fetch_loop net today url msg (a + 1) (Some err) ?w3"
    using lt Suc.prems(1) err
    by (subst fetch_loop.simps) (simp add: Let_def)
  have IH: "fst (fetch_loop net today url msg (a + 1) (Some err) ?w3) = final_result (attempt_result msg (net url k))
       \<and> fetched (snd (fetch_loop net today url msg (a + 1) (Some err) ?w3)) = fetched ?w3 @ replicate (Suc k - (a + 1)) url
       \<and> delays (snd (fetch_loop net today url msg (a + 1) (Some err) ?w3)) = delays ?w3 @ map getRetryDelay [a + 1..<k]"
    using Suc.hyps(2) Suc.prems lt
    by (intro Suc.hyps(1)) auto
  have rep: "replicate (Suc k - a) url = url # replicate (Suc k - (a + 1)) url"
    using lt by (simp add: Suc_diff_le replicate_Suc [symmetric] del: replicate_Suc)
  have upt: "[a..<k] = a # [a + 1..<k]"
    using lt by (simp add: upt_conv_Cons)
  show ?case
    unfolding unfold using IH rep upt by simp
qed

lemma startsWith_iff: "startsWith s sub \<longleftrightarrow> (\<exists>q. s = sub @ q)"
  by (induction s sub rule: startsWith.induct) auto

lemma str_includes_iff: "str_includes s sub \<longleftrightarrow> (\<exists>p q. s = p @ sub @ q)"
proof (induction s)
  case Nil
  then show ?case by auto
next
  case (Cons x xs)
  show ?case
  proof
    assume "str_includes (x # xs) sub"
    then consider "startsWith (x # xs) sub" | "str_includes xs sub" by auto
    then show "\<exists>p q. x # xs = p @ sub @ q"
    proof cases
      case 1
      then obtain q where "x # xs = sub @ q" by (auto simp: startsWith_iff)
      then have "x # xs = [] @ sub @ q" by simp
      then show ?thesis by blast
    next
      case 2
      then obtain p q where "xs = p @ sub @ q" using Cons.IH by auto
      then have "x # xs = (x # p) @ sub @ q" by simp
      then show ?thesis by blast
    qed
  next
    assume "\<exists>p q. x # xs = p @ sub @ q"
    then obtain p q where pq: "x # xs = p @ sub @ q" by auto
    show "str_includes (x # xs) sub"
    proof (cases p)
      case Nil
      then have "startsWith (x # xs) sub" using pq by (auto simp: startsWith_iff)
      then show ?thesis by simp
    next
      case (Cons y ys)
      then have "xs = ys @ sub @ q" using pq by simp
      then have "str_includes xs sub" using Cons.IH by auto
      then show ?thesis by simp
    qed
  qed
qed

lemma should_retry_iff:
  "should_retry err \<longleftrightarrow>
     error_name err = ''AbortError'' \<or> (\<exists>p q. error_message err = p @ ''network'' @ q)"
  unfolding should_retry_def str_includes_iff by blast

lemma retry_delays_default: "map getRetryDelay [0..<maxRetries RETRY_CONFIG] = [1000, 2000]"
  by (simp add: getRetryDelay_def RETRY_CONFIG_def numeral_2_eq_2)

lemma fetchApi_allowed:
  "fst (canMakeRequest (now_limit e) (now_window e) (rateLimiter w)) \<Longrightarrow>
   fetchApi net e url msg w =
     fetch_loop net (now_count e) url msg 0 None
       (w\<lparr>rateLimiter := snd (canMakeRequest (now_limit e) (now_window e) (rateLimiter w))\<rparr>)"
  by (auto simp: fetchApi_def Let_def split: prod.splits)

lemma fetchApi_refused:
  "\<not> fst (canMakeRequest (now_limit e) (now_window e) (rateLimiter w)) \<Longrightarrow>
   fetchApi net e url msg w =
     (Inl (new_Error RATE_LIMIT_MESSAGE),
      w\<lparr>rateLimiter := snd (canMakeRequest (now_limit e) (now_window e) (rateLimiter w))\<rparr>)"
  by (auto simp: fetchApi_def Let_def split: prod.splits)

text \<open>
  C3, amended. When the rate limiter allows the request: an error is retried exactly
  when it is an abort or its message contains \<open>network\<close>. The loop stops at the first
  attempt \<open>k\<close> (at most \<open>maxRetries\<close>) that does not fail retryably, after \<open>k + 1\<close>
  attempts in all (one attempt when it is the first), and returns that attempt's data or
  throws its error unchanged; before each retry it waits
  \<open>min (baseDelay * 2 ^ attempt) 5000\<close> milliseconds, the delays of the default
  configuration being 1000 then 2000. When every attempt up to \<open>maxRetries\<close> fails
  retryably, the generic network error is thrown after \<open>maxRetries + 1\<close> attempts.
\<close>

theorem fetchApi_retry_policy:
  assumes "fst (canMakeRequest (now_limit e) (now_window e) (rateLimiter w))"
  shows "(should_retry err \<longleftrightarrow>
            error_name err = ''AbortError'' \<or> (\<exists>p q. error_message err = p @ ''network'' @ q))
       \<and> (k \<le> maxRetries RETRY_CONFIG
            \<and> (\<forall>i<k. retryable_failure (attempt_result msg (net url i)))
            \<and> \<not> retryable_failure (attempt_result msg (net url k)) \<longrightarrow>
          fst (fetchApi net e url msg w) = attempt_result msg (net url k)
          \<and> fetched (snd (fetchApi net e url msg w)) = fetched w @ replicate (Suc k) url
          \<and> delays (snd (fetchApi net e url msg w)) = delays w @ map getRetryDelay [0..<k])
       \<and> ((\<forall>i\<le>maxRetries RETRY_CONFIG. retryable_failure (attempt_result msg (net url i))) \<longrightarrow>
          fst (fetchApi net e url msg w) = Inl (new_Error NETWORK_ERROR)
          \<and> fetched (snd (fetchApi net e url msg w)) =
              fetched w @ replicate (Suc (maxRetries RETRY_CONFIG)) url
          \<and> delays (snd (fetchApi net e url msg w)) =
              delays w @ map getRetryDelay [0..<maxRetries RETRY_CONFIG])
       \<and> getRetryDelay a = min (baseDelay RETRY_CONFIG * 2 ^ a) 5000
       \<and> map getRetryDelay [0..<maxRetries RETRY_CONFIG] = [1000, 2000]
       \<and> sorted_wrt (<) (map getRetryDelay [0..<maxRetries RETRY_CONFIG])"
proof -
  let ?w0 = "w\<lparr>rateLimiter := snd (canMakeRequest (now_limit e) (now_window e) (rateLimiter w))\<rparr>"
  have run: "fetchApi net e url msg w = fetch_loop net (now_count e) url msg 0 None ?w0"
    using assms by (rule fetchApi_allowed)
  have stop: "fst (fetchApi net e url msg w) = attempt_result msg (net url k)
          \<and> fetched (snd (fetchApi net e url msg w)) = fetched w @ replicate (Suc k) url
          \<and> delays (snd (fetchApi net e url msg w)) = delays w @ map getRetryDelay [0..<k]"
    if "k \<le> maxRetries RETRY_CONFIG"
      and "\<forall>i<k. retryable_failure (attempt_result msg (net url i))"
      and last: "\<not> retryable_failure (attempt_result msg (net url k))"
  proof -
    have "final_result (attempt_result msg (net url k)) = attempt_result msg (net url k)"
      using last by (auto simp: final_result_def retryable_failure_def split: sum.splits)
    then show ?thesis
      using fetch_loop_run [of k 0 msg net url "now_count e" None ?w0] that
      by (simp add: run)
  qed
  have exhaust: "fst (fetchApi net e url msg w) = Inl (new_Error NETWORK_ERROR)
          \<and> fetched (snd (fetchApi net e url msg w)) =
              fetched w @ replicate (Suc (maxRetries RETRY_CONFIG)) url
          \<and> delays (snd (fetchApi net e url msg w)) =
              delays w @ map getRetryDelay [0..<maxRetries RETRY_CONFIG]"
    if all: "\<forall>i\<le>maxRetries RETRY_CONFIG. retryable_failure (attempt_result msg (net url i))"
  proof -
    have "retryable_failure (attempt_result msg (net url (maxRetries RETRY_CONFIG)))"
      using all by simp
    then have "final_result (attempt_result msg (net url (maxRetries RETRY_CONFIG)))
        = Inl (new_Error NETWORK_ERROR)"
      by (auto simp: final_result_def retryable_failure_def split: sum.splits)
    then show ?thesis
      using fetch_loop_run [of "maxRetries RETRY_CONFIG" 0 msg net url "now_count e" None ?w0] all
      by (simp add: run)
  qed
  have rising: "sorted_wrt (<) (map getRetryDelay [0..<maxRetries RETRY_CONFIG])"
    unfolding retry_delays_default by simp
  show ?thesis
    using stop exhaust should_retry_iff [of err] retry_delays_default rising
    by (simp add: getRetryDelay_def)
qed

lemmas example_defs =
  example_env_def example_world_def aborted_def new_Error_def new_RateLimiter_def
  new_LRUCache_def MAX_SIZE_def RATE_LIMIT_def RETRY_CONFIG_def canMakeRequest_def

text \<open>
  C3, as the specification states it (a failure that is neither an abort nor a network
  error is thrown with a total attempt count of 1), fails where that failure comes on a
  retry: the first attempt is aborted, the second meets a provider error, which is thrown
  at once, after two attempts.
\<close>

theorem attempt_count_counterexample:
  "attempt_result ''Failed to fetch weather data'' (abort_then_not_found ''u'' 0) = Inl aborted
   \<and> should_retry aborted
   \<and> attempt_result ''Failed to fetch weather data'' (abort_then_not_found ''u'' 1)
     = Inl (new_Error ''No matching location found.'')
   \<and> \<not> should_retry (new_Error ''No matching location found.'')
   \<and> fst (fetchApi abort_then_not_found example_env ''u'' ''Failed to fetch weather data''
        example_world) = Inl (new_Error ''No matching location found.'')
   \<and> fetched (snd (fetchApi abort_then_not_found example_env ''u'' ''Failed to fetch weather data''
        example_world)) = [''u'', ''u'']
   \<and> delays (snd (fetchApi abort_then_not_found example_env ''u'' ''Failed to fetch weather data''
        example_world)) = [1000]"
  by (simp add: fetchApi_def fetch_loop.simps example_defs should_retry_def getRetryDelay_def)

theorem fetchApi_retry_policy_witness:
  "fst (fetchApi not_found example_env ''u'' ''Failed to fetch weather data'' example_world)
     = Inl (new_Error ''No matching location found.'')
   \<and> fetched (snd (fetchApi not_found example_env ''u'' ''Failed to fetch weather data''
        example_world)) = [''u'']
   \<and> delays (snd (fetchApi not_found example_env ''u'' ''Failed to fetch weather data''
        example_world)) = []
   \<and> fst (fetchApi always_aborted example_env ''u'' ''Failed to fetch weather data'' example_world)
     = Inl (new_Error NETWORK_ERROR)
   \<and> fetched (snd (fetchApi always_aborted example_env ''u'' ''Failed to fetch weather data''
        example_world)) = [''u'', ''u'', ''u'']
   \<and> delays (snd (fetchApi always_aborted example_env ''u'' ''Failed to fetch weather data''
        example_world)) = [1000, 2000]"
proof -
  have ok: "fst (canMakeRequest (now_limit example_env) (now_window example_env) (rateLimiter example_world))"
    by (simp add: example_defs)
  have stop: "\<not> retryable_failure
      (attempt_result ''Failed to fetch weather data'' (not_found ''u'' 0))"
    by (simp add: retryable_failure_def should_retry_def new_Error_def)
  have found: "attempt_result ''Failed to fetch weather data'' (not_found ''u'' 0)
      = Inl (new_Error ''No matching location found.'')"
    by simp
  have all: "\<forall>i\<le>maxRetries RETRY_CONFIG. retryable_failure
      (attempt_result ''Failed to fetch weather data'' (always_aborted ''u'' i))"
    by (simp add: retryable_failure_def should_retry_def aborted_def)
  have empty: "fetched example_world = []" "delays example_world = []"
    by (simp_all add: example_world_def)
  have three: "Suc (maxRetries RETRY_CONFIG) = 3"
    by (simp add: RETRY_CONFIG_def)
  show ?thesis
    using fetchApi_retry_policy [OF ok, of aborted 0 "''Failed to fetch weather data''"
        not_found "''u''" 0]
      fetchApi_retry_policy [OF ok, of aborted 0 "''Failed to fetch weather data''"
        always_aborted "''u''" 0]
      stop all
    by (simp add: found empty three retry_delays_default eval_nat_numeral)
qed

text \<open>
  C9. A run of \<open>fetchApi\<close> that the rate limiter allows makes at least one attempt and
  leaves the usage counter exactly one \<open>increment\<close> ahead, whatever the attempts meet;
  the loop from any attempt number above 0 leaves the counter as it is; a run the rate
  limiter refuses throws the rate-limit error, makes no attempt and leaves the counter as
  it is.
\<close>

theorem usage_counted_on_first_attempt:
  "(fst (canMakeRequest (now_limit e) (now_window e) (rateLimiter w)) \<longrightarrow>
      apiCounter (snd (fetchApi net e url msg w)) = increment (now_count e) (apiCounter w)
      \<and> length (fetched w) < length (fetched (snd (fetchApi net e url msg w))))
   \<and> (\<not> fst (canMakeRequest (now_limit e) (now_window e) (rateLimiter w)) \<longrightarrow>
      fst (fetchApi net e url msg w) = Inl (new_Error RATE_LIMIT_MESSAGE)
      \<and> apiCounter (snd (fetchApi net e url msg w)) = apiCounter w
      \<and> fetched (snd (fetchApi net e url msg w)) = fetched w)
   \<and> (0 < attempt \<longrightarrow>
      apiCounter (snd (fetch_loop net today url msg attempt lastError w)) = apiCounter w)"
proof (intro conjI impI)
  assume ok: "fst (canMakeRequest (now_limit e) (now_window e) (rateLimiter w))"
  show "apiCounter (snd (fetchApi net e url msg w)) = increment (now_count e) (apiCounter w)"
    by (simp add: fetchApi_allowed [OF ok] fetch_loop_counter)
  have "length (fetched (w\<lparr>rateLimiter := snd (canMakeRequest (now_limit e) (now_window e) (rateLimiter w))\<rparr>))
      < length (fetched (snd (fetch_loop net (now_count e) url msg 0 None
          (w\<lparr>rateLimiter := snd (canMakeRequest (now_limit e) (now_window e) (rateLimiter w))\<rparr>))))"
    by (rule fetch_loop_attempts) simp
  then show "length (fetched w) < length (fetched (snd (fetchApi net e url msg w)))"
    by (simp add: fetchApi_allowed [OF ok])
next
  assume no: "\<not> fst (canMakeRequest (now_limit e) (now_window e) (rateLimiter w))"
  show "fst (fetchApi net e url msg w) = Inl (new_Error RATE_LIMIT_MESSAGE)"
    by (simp add: fetchApi_refused [OF no])
  show "apiCounter (snd (fetchApi net e url msg w)) = apiCounter w"
    by (simp add: fetchApi_refused [OF no])
  show "fetched (snd (fetchApi net e url msg w)) = fetched w"
    by (simp add: fetchApi_refused [OF no])
next
  assume "0 < attempt"
  then show "apiCounter (snd (fetch_loop net today url msg attempt lastError w)) = apiCounter w"
    by (simp add: fetch_loop_counter)
qed

theorem usage_counted_on_first_attempt_witness:
  "count (state (apiCounter (snd (fetchApi always_aborted example_env ''u'' ''m'' example_world))))
     = number_of 1
   \<and> length (fetched (snd (fetchApi always_aborted example_env ''u'' ''m'' example_world))) = 3
   \<and> fst (fetchApi always_aborted example_env ''u'' ''m''
        (example_world\<lparr>rateLimiter := \<lparr>requests = 30, limiter_lastReset = 0\<rparr>\<rparr>))
      = Inl (new_Error RATE_LIMIT_MESSAGE)
   \<and> apiCounter (snd (fetchApi always_aborted example_env ''u'' ''m''
        (example_world\<lparr>rateLimiter := \<lparr>requests = 30, limiter_lastReset = 0\<rparr>\<rparr>)))
      = apiCounter example_world
   \<and> apiCounter (snd (fetch_loop always_aborted (now_count example_env) ''u'' ''m'' 1 (Some aborted)
        example_world)) = apiCounter example_world"
  using usage_counted_on_first_attempt [of example_env example_world always_aborted "''u''" "''m''" 1
      "now_count example_env" "Some aborted"]
    usage_counted_on_first_attempt [of example_env
      "example_world\<lparr>rateLimiter := \<lparr>requests = 30, limiter_lastReset = 0\<rparr>\<rparr>"
      always_aborted "''u''" "''m''" 1 "now_count example_env" "Some aborted"]
  by (simp add: fetchApi_def fetch_loop.simps example_defs should_retry_def getRetryDelay_def
      increment_def checkAndResetMonthly_def saveState_def js_increment_def rat_of_number_of)


section \<open>Claims about the weather service\<close>


lemma fetchApi_frame:
  "cityCache (snd (fetchApi net e url msg w)) = cityCache w
   \<and> weatherCache (snd (fetchApi net e url msg w)) = weatherCache w"
  by (cases "fst (canMakeRequest (now_limit e) (now_window e) (rateLimiter w))")
    (simp_all add: fetchApi_allowed fetchApi_refused fetch_loop_frame)

text \<open>
  C2, amended. \<open>searchCities\<close> returns the empty list, and leaves the module's state as
  it is, when the query is blank or shorter than the minimum length. When the query
  passes that test and the API key is missing, the key-missing error of
  \<open>validateApiKey\<close> is thrown to the caller; with the key configured, so is the error
  \<open>encodeURIComponent\<close> throws on a query that is not well-formed. When the key is
  configured and \<open>encodeURIComponent\<close> accepts the query, \<open>searchCities\<close> never
  throws: in particular, when there is no fresh cache entry and \<open>fetchApi\<close> fails with
  any error (a rate-limit rejection, a fetch or a provider error), it returns the empty
  list.
\<close>

theorem searchCities_failures:
  "(trim e query = [] \<or> length query < MIN_QUERY_LENGTH \<longrightarrow>
      searchCities net e query w = (Inr [], w))
   \<and> (trim e query \<noteq> [] \<and> MIN_QUERY_LENGTH \<le> length query \<and> validateApiKey e \<noteq> None \<longrightarrow>
      searchCities net e query w = (Inl (new_Error API_KEY_MISSING), w))
   \<and> (trim e query \<noteq> [] \<and> MIN_QUERY_LENGTH \<le> length query \<and> validateApiKey e = None
      \<and> sanitizeInput e query = Inl err \<longrightarrow>
      searchCities net e query w = (Inl err, w))
   \<and> (validateApiKey e = None \<and> sanitizeInput e query = Inr q \<longrightarrow>
      (\<exists>r. fst (searchCities net e query w) = Inr r))
   \<and> (trim e query \<noteq> [] \<and> MIN_QUERY_LENGTH \<le> length query \<and> validateApiKey e = None
      \<and> sanitizeInput e query = Inr q
      \<and> fresh (now_check e) (fst (cache_get (CACHE_VERSION e) q (cityCache w))) = None
      \<and> fst (fetchApi net e (search_url e q) ''Failed to fetch city suggestions''
           (w\<lparr>cityCache := snd (cache_get (CACHE_VERSION e) q (cityCache w))\<rparr>))
         = Inl error \<longrightarrow>
      fst (searchCities net e query w) = Inr [])"
proof (intro conjI impI)
  assume "trim e query = [] \<or> length query < MIN_QUERY_LENGTH"
  then show "searchCities net e query w = (Inr [], w)"
    by (auto simp: searchCities_def)
next
  assume "trim e query \<noteq> [] \<and> MIN_QUERY_LENGTH \<le> length query \<and> validateApiKey e \<noteq> None"
  then show "searchCities net e query w = (Inl (new_Error API_KEY_MISSING), w)"
    by (auto simp: searchCities_def validateApiKey_def split: option.splits if_splits)
next
  assume "trim e query \<noteq> [] \<and> MIN_QUERY_LENGTH \<le> length query \<and> validateApiKey e = None
      \<and> sanitizeInput e query = Inl err"
  then show "searchCities net e query w = (Inl err, w)"
    by (auto simp: searchCities_def)
next
  assume "validateApiKey e = None \<and> sanitizeInput e query = Inr q"
  then show "\<exists>r. fst (searchCities net e query w) = Inr r"
    by (auto simp: searchCities_def Let_def split: prod.splits option.splits sum.splits)
next
  assume "trim e query \<noteq> [] \<and> MIN_QUERY_LENGTH \<le> length query \<and> validateApiKey e = None
      \<and> sanitizeInput e query = Inr q
      \<and> fresh (now_check e) (fst (cache_get (CACHE_VERSION e) q (cityCache w))) = None
      \<and> fst (fetchApi net e (search_url e q) ''Failed to fetch city suggestions''
           (w\<lparr>cityCache := snd (cache_get (CACHE_VERSION e) q (cityCache w))\<rparr>))
         = Inl error"
  then show "fst (searchCities net e query w) = Inr []"
    by (auto simp: searchCities_def Let_def split: prod.splits option.splits sum.splits)
qed

lemmas platform_defs =
  ascii_trim_def white_space_def ascii_lower_def unreserved_def percent_encode_def
  sanitizeInput_def

text \<open>
  C2, as the specification states it (never throws, a missing API key included), fails:
  with no API key and the query \<open>Lon\<close> the key-missing error reaches the caller.
\<close>

theorem missing_key_propagates_counterexample:
  "searchCities one_city (example_env\<lparr>VITE_WEATHER_API_KEY := None\<rparr>) ''Lon'' example_world
     = (Inl (new_Error API_KEY_MISSING), example_world)"
  by (simp add: searchCities_def validateApiKey_def example_env_def platform_defs
      MIN_QUERY_LENGTH_def)

theorem searchCities_failures_witness:
  "searchCities one_city example_env ''  '' example_world = (Inr [], example_world)
   \<and> searchCities one_city example_env ''L'' example_world = (Inr [], example_world)
   \<and> searchCities one_city (example_env\<lparr>VITE_WEATHER_API_KEY := Some []\<rparr>) ''Lon'' example_world
       = (Inl (new_Error API_KEY_MISSING), example_world)
   \<and> searchCities one_city (example_env\<lparr>encodeURIComponent := (\<lambda>s. Inl malformed)\<rparr>) ''Lon''
        example_world = (Inl malformed, example_world)
   \<and> sanitizeInput example_env ''Lon'' = Inr ''lon''
   \<and> fst (fetchApi server_error example_env (search_url example_env ''lon'')
        ''Failed to fetch city suggestions'' example_world)
       = Inl (new_Error ''Failed to fetch city suggestions (Status: 500)'')
   \<and> fst (searchCities server_error example_env ''Lon'' example_world) = Inr []
   \<and> fst (searchCities one_city example_env ''Lon''
        (example_world\<lparr>rateLimiter := \<lparr>requests = 30, limiter_lastReset = 0\<rparr>\<rparr>)) = Inr []"
  using searchCities_failures [of example_env "''  ''" one_city example_world]
    searchCities_failures [of "example_env\<lparr>VITE_WEATHER_API_KEY := Some []\<rparr>" "''Lon''"
      one_city example_world]
    searchCities_failures [of "example_env\<lparr>encodeURIComponent := (\<lambda>s. Inl malformed)\<rparr>"
      "''Lon''" one_city example_world malformed]
    searchCities_failures [of example_env "''Lon''" server_error example_world malformed "''lon''"
      "new_Error ''Failed to fetch city suggestions (Status: 500)''"]
  by (simp add: searchCities_def validateApiKey_def platform_defs MIN_QUERY_LENGTH_def
      fetchApi_def fetch_loop.simps example_defs should_retry_def getRetryDelay_def
      cache_get_def map_get_def fresh_def digit_def show_nat.simps Let_def)

lemma cache_get_hit:
  "map_get (cache c) key = Some entry \<Longrightarrow> version entry = ver \<Longrightarrow>
   fst (cache_get ver key c) = Some entry"
  by (simp add: cache_get_def)

text \<open>
  C10. When the weather cache holds, under the request key of \<open>getWeatherData\<close>
  (\<open>weather_\<close> and the sanitized city) or of \<open>getForecastData\<close> (\<open>forecast_\<close> and
  the sanitized city), an entry of the live version whose timestamp is less than
  \<open>CACHE_DURATION\<close> before the clock reading, the operation leaves the usage counter
  and the rate limiter exactly as they were and calls \<open>fetch\<close> not once; and, the
  city being non-blank and the API key configured (so that the cache is consulted at
  all), it returns the data of that entry.
\<close>

theorem cache_hit_makes_no_request:
  "(sanitizeInput e cityname = Inr s
      \<and> map_get (cache (weatherCache w)) (''weather_'' @ s) = Some entry
      \<and> version entry = CACHE_VERSION e
      \<and> now_check e - timestamp entry < CACHE_DURATION \<longrightarrow>
    apiCounter (snd (getWeatherData netW e cityname w)) = apiCounter w
    \<and> rateLimiter (snd (getWeatherData netW e cityname w)) = rateLimiter w
    \<and> fetched (snd (getWeatherData netW e cityname w)) = fetched w
    \<and> (trim e cityname \<noteq> [] \<and> validateApiKey e = None \<longrightarrow>
         fst (getWeatherData netW e cityname w) = Inr (data entry)))
   \<and> (sanitizeInput e cityname = Inr s
      \<and> map_get (cache (weatherCache w)) (''forecast_'' @ s) = Some entry'
      \<and> version entry' = CACHE_VERSION e
      \<and> now_check e - timestamp entry' < CACHE_DURATION \<longrightarrow>
    apiCounter (snd (getForecastData netF e cityname w)) = apiCounter w
    \<and> rateLimiter (snd (getForecastData netF e cityname w)) = rateLimiter w
    \<and> fetched (snd (getForecastData netF e cityname w)) = fetched w
    \<and> (trim e cityname \<noteq> [] \<and> validateApiKey e = None \<longrightarrow>
         fst (getForecastData netF e cityname w) = Inr (data entry')))"
proof (intro conjI impI)
  assume hit: "sanitizeInput e cityname = Inr s
      \<and> map_get (cache (weatherCache w)) (''weather_'' @ s) = Some entry
      \<and> version entry = CACHE_VERSION e
      \<and> now_check e - timestamp entry < CACHE_DURATION"
  then have f: "fresh (now_check e)
      (fst (cache_get (CACHE_VERSION e) (''weather_'' @ s) (weatherCache w))) = Some (data entry)"
    by (simp add: cache_get_hit fresh_def isCacheValid_def)
  have run: "getWeatherData netW e cityname w =
      (if trim e cityname = [] then (Inl (new_Error EMPTY_CITY), w)
       else case validateApiKey e of
         Some err \<Rightarrow> (Inl err, w)
       | None \<Rightarrow> (Inr (data entry),
           w\<lparr>weatherCache := snd (cache_get (CACHE_VERSION e) (''weather_'' @ s)
               (weatherCache w))\<rparr>))"
    using f hit by (auto simp: getWeatherData_def Let_def split: prod.splits option.splits)
  show "apiCounter (snd (getWeatherData netW e cityname w)) = apiCounter w"
    by (simp add: run split: option.splits)
  show "rateLimiter (snd (getWeatherData netW e cityname w)) = rateLimiter w"
    by (simp add: run split: option.splits)
  show "fetched (snd (getWeatherData netW e cityname w)) = fetched w"
    by (simp add: run split: option.splits)
  show "fst (getWeatherData netW e cityname w) = Inr (data entry)"
    if "trim e cityname \<noteq> [] \<and> validateApiKey e = None"
    using that by (simp add: run)
next
  assume hit: "sanitizeInput e cityname = Inr s
      \<and> map_get (cache (weatherCache w)) (''forecast_'' @ s) = Some entry'
      \<and> version entry' = CACHE_VERSION e
      \<and> now_check e - timestamp entry' < CACHE_DURATION"
  then have f: "fresh (now_check e)
      (fst (cache_get (CACHE_VERSION e) (''forecast_'' @ s) (weatherCache w))) = Some (data entry')"
    by (simp add: cache_get_hit fresh_def isCacheValid_def)
  have run: "getForecastData netF e cityname w =
      (if trim e cityname = [] then (Inl (new_Error EMPTY_CITY), w)
       else case validateApiKey e of
         Some err \<Rightarrow> (Inl err, w)
       | None \<Rightarrow> (Inr (data entry'),
           w\<lparr>weatherCache := snd (cache_get (CACHE_VERSION e) (''forecast_'' @ s)
               (weatherCache w))\<rparr>))"
    using f hit by (auto simp: getForecastData_def Let_def split: prod.splits option.splits)
  show "apiCounter (snd (getForecastData netF e cityname w)) = apiCounter w"
    by (simp add: run split: option.splits)
  show "rateLimiter (snd (getForecastData netF e cityname w)) = rateLimiter w"
    by (simp add: run split: option.splits)
  show "fetched (snd (getForecastData netF e cityname w)) = fetched w"
    by (simp add: run split: option.splits)
  show "fst (getForecastData netF e cityname w) = Inr (data entry')"
    if "trim e cityname \<noteq> [] \<and> validateApiKey e = None"
    using that by (simp add: run)
qed

theorem cache_hit_makes_no_request_witness:
  "fst (getWeatherData always_aborted example_env ''Paris'' warm_world)
     = Inr (Weather (transformWeather paris_payload))
   \<and> apiCounter (snd (getWeatherData always_aborted example_env ''Paris'' warm_world))
     = apiCounter warm_world
   \<and> rateLimiter (snd (getWeatherData always_aborted example_env ''Paris'' warm_world))
     = rateLimiter warm_world
   \<and> fetched (snd (getWeatherData always_aborted example_env ''Paris'' warm_world)) = []
   \<and> fst (getForecastData forecast_aborted example_env '' paris '' warm_world)
     = Inr (Forecast paris_forecast)
   \<and> apiCounter (snd (getForecastData forecast_aborted example_env '' paris '' warm_world))
     = apiCounter warm_world
   \<and> rateLimiter (snd (getForecastData forecast_aborted example_env '' paris '' warm_world))
     = rateLimiter warm_world
   \<and> fetched (snd (getForecastData forecast_aborted example_env '' paris '' warm_world)) = []"
proof -
  have keyW: "sanitizeInput example_env ''Paris'' = Inr ''paris''"
    by (simp add: example_env_def platform_defs)
  have keyF: "sanitizeInput example_env '' paris '' = Inr ''paris''"
    by (simp add: example_env_def platform_defs)
  have guards: "trim example_env ''Paris'' \<noteq> []" "trim example_env '' paris '' \<noteq> []"
    "validateApiKey example_env = None"
    by (simp_all add: example_env_def platform_defs validateApiKey_def)
  have entries:
    "map_get (cache (weatherCache warm_world)) ''weather_paris''
       = Some \<lparr>data = Weather (transformWeather paris_payload), timestamp = 500,
               version = ''1.0.0''\<rparr>"
    "map_get (cache (weatherCache warm_world)) ''forecast_paris''
       = Some \<lparr>data = Forecast paris_forecast, timestamp = 600, version = ''1.0.0''\<rparr>"
    by (simp_all add: warm_world_def map_get_def)
  have times: "CACHE_VERSION example_env = ''1.0.0''" "now_check example_env = 1000"
    "fetched warm_world = []"
    by (simp_all add: example_env_def warm_world_def example_world_def)
  show ?thesis
    using cache_hit_makes_no_request [of example_env "''Paris''" "''paris''" warm_world
        "\<lparr>data = Weather (transformWeather paris_payload), timestamp = 500, version = ''1.0.0''\<rparr>"
        always_aborted
        "\<lparr>data = Forecast paris_forecast, timestamp = 600, version = ''1.0.0''\<rparr>"
        forecast_aborted]
      cache_hit_makes_no_request [of example_env "'' paris ''" "''paris''" warm_world
        "\<lparr>data = Weather (transformWeather paris_payload), timestamp = 500, version = ''1.0.0''\<rparr>"
        always_aborted
        "\<lparr>data = Forecast paris_forecast, timestamp = 600, version = ''1.0.0''\<rparr>"
        forecast_aborted]
      guards keyW keyF
    by (simp add: entries times CACHE_DURATION_def)
qed

lemma Math_round_nearest:
  "\<bar>rat_of (Math_round x) - rat_of x\<bar> \<le> \<bar>of_int n - rat_of x\<bar>"
proof -
  define v where "v = rat_of x"
  define z where "z = \<lfloor>v + 1 / 2\<rfloor>"
  have r: "rat_of (Math_round x) = of_int z"
    by (simp add: rat_of_Math_round z_def v_def)
  have lo: "of_int z \<le> v + 1 / 2"
    unfolding z_def by (rule of_int_floor_le)
  have hi: "v + 1 / 2 < of_int z + 1"
    unfolding z_def using floor_correct [of "v + 1 / 2"] by simp
  have "\<bar>of_int z - v\<bar> \<le> \<bar>of_int n - v\<bar>"
  proof (cases "n = z")
    case True
    then show ?thesis by simp
  next
    case False
    then consider "n \<le> z - 1" | "z + 1 \<le> n"
      by linarith
    then show ?thesis
    proof cases
      case 1
      then have "(of_int n :: rat) \<le> of_int (z - 1)"
        by (simp only: of_int_le_iff)
      then have "(of_int n :: rat) \<le> of_int z - 1" by simp
      then show ?thesis using lo hi by linarith
    next
      case 2
      then have "(of_int (z + 1) :: rat) \<le> of_int n"
        by (simp only: of_int_le_iff)
      then have "(of_int z :: rat) + 1 \<le> of_int n" by simp
      then show ?thesis using lo hi by linarith
    qed
  qed
  then show ?thesis by (simp only: r v_def)
qed

lemma Math_round_number_of:
  "\<lfloor>binary64 x + 1 / 2\<rfloor> = z \<Longrightarrow> Math_round (number_of x) = number_of (of_int z)"
  by (simp add: Math_round_def rat_of_number_of)

lemma Math_round_quotient:
  "\<lfloor>binary64 (binary64 x / binary64 y) + 1 / 2\<rfloor> = z \<Longrightarrow>
   Math_round (js_divide (number_of x) (number_of y)) = number_of (of_int z)"
  by (simp add: Math_round_def js_divide_def rat_of_number_of)

lemma Math_round_examples:
  "Math_round (number_of (186 / 10)) = number_of 19"
  "Math_round (number_of (184 / 10)) = number_of 18"
  "Math_round (js_divide (number_of (108 / 10)) (number_of (36 / 10))) = number_of 3"
  "Math_round (js_divide (number_of (234 / 10)) (number_of (36 / 10))) = number_of 6"
proof -
  have "\<lfloor>binary64 (186 / 10) + 1 / 2\<rfloor> = 19"
    unfolding binary64_18_6 by (rule floor_unique) (simp_all add: power_int_minus)
  from Math_round_number_of [OF this]
  show "Math_round (number_of (186 / 10)) = number_of 19" by simp
  have "\<lfloor>binary64 (184 / 10) + 1 / 2\<rfloor> = 18"
    unfolding binary64_18_4 by (rule floor_unique) (simp_all add: power_int_minus)
  from Math_round_number_of [OF this]
  show "Math_round (number_of (184 / 10)) = number_of 18" by simp
  have "\<lfloor>binary64 (binary64 (108 / 10) / binary64 (36 / 10)) + 1 / 2\<rfloor> = 3"
    unfolding quotient_10_8 by (rule floor_unique) simp_all
  from Math_round_quotient [OF this]
  show "Math_round (js_divide (number_of (108 / 10)) (number_of (36 / 10))) = number_of 3"
    by simp
  have "\<lfloor>binary64 (binary64 (234 / 10) / binary64 (36 / 10)) + 1 / 2\<rfloor> = 6"
    unfolding quotient_23_4 by (rule floor_unique) (simp_all add: power_int_minus)
  from Math_round_quotient [OF this]
  show "Math_round (js_divide (number_of (234 / 10)) (number_of (36 / 10))) = number_of 6"
    by simp
qed

lemma rat_of_number_of_numeral:
  "numeral k \<le> (2::int) ^ 53 \<Longrightarrow> rat_of (number_of (numeral k)) = numeral k"
  by (simp add: rat_of_number_of)


lemma map_get_cache_set:
  "map_get (cache (cache_set ver now key val c)) key
     = Some \<lparr>data = val, timestamp = now, version = ver\<rparr>"
  by (simp add: cache_set_def Let_def map_get_def map_of_map_put)

lemma getWeatherData_success:
  assumes "fst (getWeatherData net e cityname w) = Inr r"
  shows "\<exists>s. sanitizeInput e cityname = Inr s
       \<and> (fresh (now_check e)
             (fst (cache_get (CACHE_VERSION e) (''weather_'' @ s) (weatherCache w))) = Some r
          \<or> (\<exists>p. fst (fetchApi net e (current_url e s) ''Failed to fetch weather data''
                    (w\<lparr>weatherCache :=
                         snd (cache_get (CACHE_VERSION e) (''weather_'' @ s) (weatherCache w))\<rparr>))
                  = Inr p
                \<and> r = Weather (transformWeather p)
                \<and> map_get (cache (weatherCache (snd (getWeatherData net e cityname w))))
                     (''weather_'' @ s)
                   = Some \<lparr>data = r, timestamp = now_store e, version = CACHE_VERSION e\<rparr>))"
  using assms
  by (auto simp: getWeatherData_def Let_def map_get_cache_set
      split: prod.splits option.splits sum.splits if_splits)

lemma map_get_cache_get:
  "map_get (cache (snd (cache_get ver key c))) k = Some entry \<Longrightarrow>
   map_get (cache c) k = Some entry"
  by (auto simp: cache_get_def map_get_def map_of_map_put map_of_map_delete
      split: option.splits if_splits)

lemma map_get_cache_set_cases:
  "map_get (cache (cache_set ver now key val c)) k = Some entry \<Longrightarrow>
   (k = key \<and> entry = \<lparr>data = val, timestamp = now, version = ver\<rparr>)
   \<or> map_get (cache c) k = Some entry"
  by (auto simp: cache_set_def Let_def map_get_def map_of_map_put map_of_map_delete
      split: list.splits if_splits)

lemma weather_entries_built_get:
  "weather_entries_built w \<Longrightarrow>
   weather_entries_built (w\<lparr>weatherCache := snd (cache_get ver key (weatherCache w))\<rparr>)"
  unfolding weather_entries_built_def by (auto dest: map_get_cache_get)

lemma weather_entries_built_set:
  assumes "weather_entries_built w"
    and "startsWith key ''weather_'' \<Longrightarrow> built_from_payload val"
  shows "weather_entries_built (w\<lparr>weatherCache := cache_set ver now key val (weatherCache w)\<rparr>)"
  using assms unfolding weather_entries_built_def
  by (auto dest!: map_get_cache_set_cases)

lemma weather_entries_built_cong:
  "weatherCache w' = weatherCache w \<Longrightarrow> weather_entries_built w \<Longrightarrow> weather_entries_built w'"
  by (simp add: weather_entries_built_def)

lemma weather_entries_built_fetchApi:
  "weather_entries_built w \<Longrightarrow> weather_entries_built (snd (fetchApi net e url msg w))"
  using fetchApi_frame [of net e url msg w] by (auto elim: weather_entries_built_cong [rotated])

lemma not_weather_key: "\<not> startsWith (''forecast_'' @ s) ''weather_''"
  by simp

lemma weather_entries_built_getWeatherData:
  assumes "weather_entries_built w"
  shows "weather_entries_built (snd (getWeatherData net e cityname w))"
proof (cases "sanitizeInput e cityname")
  case (Inl err)
  then show ?thesis
    using assms by (auto simp: getWeatherData_def split: option.splits)
next
  case (Inr s)
  let ?key = "''weather_'' @ s"
  let ?w1 = "w\<lparr>weatherCache := snd (cache_get (CACHE_VERSION e) ?key (weatherCache w))\<rparr>"
  let ?f = "fetchApi net e (current_url e s) ''Failed to fetch weather data'' ?w1"
  have w1: "weather_entries_built ?w1"
    using assms by (rule weather_entries_built_get)
  then have w2: "weather_entries_built (snd ?f)"
    by (rule weather_entries_built_fetchApi)
  have w3: "weather_entries_built
      ((snd ?f)\<lparr>weatherCache := cache_set (CACHE_VERSION e) (now_store e) ?key
          (Weather (transformWeather p)) (weatherCache (snd ?f))\<rparr>)" for p
    using w2 by (rule weather_entries_built_set) (auto simp: built_from_payload_def)
  show ?thesis
    using assms w1 w2 w3 Inr
    by (auto simp: getWeatherData_def Let_def split: prod.splits option.splits sum.splits)
qed

lemma weather_entries_built_getForecastData:
  assumes "weather_entries_built w"
  shows "weather_entries_built (snd (getForecastData net e cityname w))"
proof (cases "sanitizeInput e cityname")
  case (Inl err)
  then show ?thesis
    using assms by (auto simp: getForecastData_def split: option.splits)
next
  case (Inr s)
  let ?key = "''forecast_'' @ s"
  let ?w1 = "w\<lparr>weatherCache := snd (cache_get (CACHE_VERSION e) ?key (weatherCache w))\<rparr>"
  let ?f = "fetchApi net e (forecast_url e s) ''Failed to fetch forecast data'' ?w1"
  have w1: "weather_entries_built ?w1"
    using assms by (rule weather_entries_built_get)
  then have w2: "weather_entries_built (snd ?f)"
    by (rule weather_entries_built_fetchApi)
  have w3: "weather_entries_built
      ((snd ?f)\<lparr>weatherCache := cache_set (CACHE_VERSION e) (now_store e) ?key
          (Forecast t) (weatherCache (snd ?f))\<rparr>)" for t
    using w2 by (rule weather_entries_built_set) (simp only: not_weather_key)
  show ?thesis
    using assms w1 w2 w3 Inr
    by (auto simp: getForecastData_def Let_def split: prod.splits option.splits sum.splits)
qed

lemma weather_entries_built_searchCities:
  assumes "weather_entries_built w"
  shows "weather_entries_built (snd (searchCities net e query w))"
proof (cases "sanitizeInput e query")
  case (Inl err)
  then show ?thesis
    using assms by (auto simp: searchCities_def split: option.splits)
next
  case (Inr q)
  let ?w1 = "w\<lparr>cityCache := snd (cache_get (CACHE_VERSION e) q (cityCache w))\<rparr>"
  let ?f = "fetchApi net e (search_url e q) ''Failed to fetch city suggestions'' ?w1"
  have w1: "weather_entries_built ?w1"
    using assms by (simp add: weather_entries_built_def)
  then have w2: "weather_entries_built (snd ?f)"
    by (rule weather_entries_built_fetchApi)
  then have w3: "weather_entries_built ((snd ?f)\<lparr>cityCache := cc\<rparr>)" for cc
    by (simp add: weather_entries_built_def)
  show ?thesis
    using assms w1 w2 w3 Inr
    by (auto simp: searchCities_def Let_def split: prod.splits option.splits sum.splits)
qed

lemma getWeatherData_result_built:
  assumes "weather_entries_built w" and "fst (getWeatherData net e cityname w) = Inr r"
  shows "built_from_payload r"
proof -
  from getWeatherData_success [OF assms(2)]
  obtain s where cases: "fresh (now_check e)
        (fst (cache_get (CACHE_VERSION e) (''weather_'' @ s) (weatherCache w))) = Some r
      \<or> (\<exists>p. r = Weather (transformWeather p))"
    by blast
  let ?key = "''weather_'' @ s"
  from cases show ?thesis
  proof
    assume hit: "fresh (now_check e) (fst (cache_get (CACHE_VERSION e) ?key (weatherCache w))) = Some r"
    then obtain entry where entry: "fst (cache_get (CACHE_VERSION e) ?key (weatherCache w)) = Some entry"
      and r: "data entry = r"
      by (auto simp: fresh_def split: option.splits if_splits)
    from entry have "map_get (cache (weatherCache w)) ?key = Some entry"
      by (auto simp: cache_get_def split: option.splits if_splits)
    moreover have "startsWith ?key ''weather_''"
      by simp
    ultimately show ?thesis
      using assms(1) r unfolding weather_entries_built_def by blast
  next
    assume "\<exists>p. r = Weather (transformWeather p)"
    then show ?thesis
      by (simp add: built_from_payload_def)
  qed
qed

text \<open>
  C8. In the result \<open>getWeatherData\<close> builds from a provider payload, \<open>temp\<close>,
  \<open>temp_min\<close> and \<open>temp_max\<close> are \<open>Math.round\<close> of \<open>temp_c\<close>, \<open>feels_like\<close> is
  \<open>Math.round\<close> of \<open>feelslike_c\<close>, and the wind speed is \<open>Math.round\<close> of the
  quotient \<open>wind_kph / 3.6\<close>. \<open>Math.round\<close> gives the integer \<open>\<lfloor>x + 1 / 2\<rfloor>\<close>, which
  no other integer is nearer to \<open>x\<close> than; the quotient is the binary64 number nearest
  to the exact quotient of the two numbers, off by at most half the spacing of the
  numbers there. A payload with \<open>temp_c\<close> 18.6 and \<open>wind_kph\<close> 10.8 gives \<open>temp\<close> 19
  and wind speed 3; one with \<open>wind_kph\<close> 23.4 gives wind speed 6, the quotient being
  the number just below 6.5. Every successful result of \<open>getWeatherData\<close> is either the
  data of the fresh cache entry under its key or built in this way from the payload
  \<open>fetchApi\<close> returned, and then it is also the entry the cache holds under the key
  afterwards. The three operations keep the invariant of the weather cache, which an
  empty cache satisfies, and under it every successful result, a cache hit included, is
  built in this way from some payload.
\<close>

theorem weather_fields_rounded:
  "temp (main (transformWeather d)) = Math_round (temp_c (current d))
   \<and> feels_like (main (transformWeather d)) = Math_round (feelslike_c (current d))
   \<and> temp_min (main (transformWeather d)) = Math_round (temp_c (current d))
   \<and> temp_max (main (transformWeather d)) = Math_round (temp_c (current d))
   \<and> speed (wind (transformWeather d))
       = Math_round (js_divide (wind_kph (current d)) (number_of (36 / 10)))
   \<and> rat_of (Math_round x) = of_int \<lfloor>rat_of x + 1 / 2\<rfloor>
   \<and> (\<forall>n. \<bar>rat_of (Math_round x) - rat_of x\<bar> \<le> \<bar>of_int n - rat_of x\<bar>)
   \<and> rat_of (js_divide a b) = binary64 (rat_of a / rat_of b)
   \<and> \<bar>binary64 q - q\<bar> \<le> spacing q / 2
   \<and> (temp_c (current d) = number_of (186 / 10) \<and> wind_kph (current d) = number_of (108 / 10)
        \<longrightarrow> temp (main (transformWeather d)) = number_of 19
          \<and> speed (wind (transformWeather d)) = number_of 3)
   \<and> (wind_kph (current d) = number_of (234 / 10) \<longrightarrow>
        speed (wind (transformWeather d)) = number_of 6)
   \<and> (fst (getWeatherData net e cityname w) = Inr r \<longrightarrow>
        (\<exists>s. sanitizeInput e cityname = Inr s
           \<and> (fresh (now_check e)
                 (fst (cache_get (CACHE_VERSION e) (''weather_'' @ s) (weatherCache w))) = Some r
              \<or> (\<exists>p. fst (fetchApi net e (current_url e s) ''Failed to fetch weather data''
                        (w\<lparr>weatherCache :=
                             snd (cache_get (CACHE_VERSION e) (''weather_'' @ s)
                                    (weatherCache w))\<rparr>))
                      = Inr p
                    \<and> r = Weather (transformWeather p)
                    \<and> map_get (cache (weatherCache (snd (getWeatherData net e cityname w))))
                         (''weather_'' @ s)
                       = Some \<lparr>data = r, timestamp = now_store e,
                               version = CACHE_VERSION e\<rparr>))))
   \<and> (cache (weatherCache w) = [] \<longrightarrow> weather_entries_built w)
   \<and> (weather_entries_built w \<longrightarrow>
        weather_entries_built (snd (getWeatherData net e cityname w))
        \<and> weather_entries_built (snd (getForecastData netF e cityname w))
        \<and> weather_entries_built (snd (searchCities netS e cityname w))
        \<and> (fst (getWeatherData net e cityname w) = Inr r \<longrightarrow>
             (\<exists>p. r = Weather (transformWeather p))))"
proof -
  have fields: "temp (main (transformWeather d)) = Math_round (temp_c (current d))
   \<and> feels_like (main (transformWeather d)) = Math_round (feelslike_c (current d))
   \<and> temp_min (main (transformWeather d)) = Math_round (temp_c (current d))
   \<and> temp_max (main (transformWeather d)) = Math_round (temp_c (current d))
   \<and> speed (wind (transformWeather d))
       = Math_round (js_divide (wind_kph (current d)) (number_of (36 / 10)))"
    by (simp add: transformWeather_def)
  have round: "rat_of (Math_round x) = of_int \<lfloor>rat_of x + 1 / 2\<rfloor>"
    by (rule rat_of_Math_round)
  have quotient: "rat_of (js_divide a b) = binary64 (rat_of a / rat_of b)"
    by (simp add: js_divide_def rat_of_number_of)
  have scenario: "temp (main (transformWeather d)) = number_of 19
      \<and> speed (wind (transformWeather d)) = number_of 3"
    if given: "temp_c (current d) = number_of (186 / 10)
      \<and> wind_kph (current d) = number_of (108 / 10)"
  proof -
    from given have t: "temp_c (current d) = number_of (186 / 10)"
      and k: "wind_kph (current d) = number_of (108 / 10)"
      by blast+
    have "Math_round (temp_c (current d)) = number_of 19"
      unfolding t by (rule Math_round_examples(1))
    moreover have "Math_round (js_divide (wind_kph (current d)) (number_of (36 / 10)))
        = number_of 3"
      unfolding k by (rule Math_round_examples(3))
    ultimately show ?thesis
      using fields by simp
  qed
  have below: "speed (wind (transformWeather d)) = number_of 6"
    if k: "wind_kph (current d) = number_of (234 / 10)"
  proof -
    have "Math_round (js_divide (wind_kph (current d)) (number_of (36 / 10))) = number_of 6"
      unfolding k by (rule Math_round_examples(4))
    then show ?thesis
      using fields by simp
  qed
  have empty: "weather_entries_built w" if "cache (weatherCache w) = []"
    using that by (simp add: weather_entries_built_def map_get_def)
  have built: "\<exists>p. r = Weather (transformWeather p)"
    if "weather_entries_built w" and "fst (getWeatherData net e cityname w) = Inr r"
    using getWeatherData_result_built [OF that] by (simp add: built_from_payload_def)
  show ?thesis
    using fields round quotient binary64_error [of q] scenario below
      Math_round_nearest [of x] getWeatherData_success [of net e cityname w r]
      empty built weather_entries_built_getWeatherData [of w net e cityname]
      weather_entries_built_getForecastData [of w netF e cityname]
      weather_entries_built_searchCities [of w netS e cityname]
    by blast
qed

theorem weather_fields_rounded_witness:
  "main (transformWeather paris_payload)
     = \<lparr>temp = number_of 19, feels_like = number_of 18, temp_min = number_of 19,
        temp_max = number_of 19, pressure = number_of 1015, humidity = number_of 60\<rparr>
   \<and> wind (transformWeather paris_payload) = \<lparr>speed = number_of 3, deg = number_of 200\<rparr>
   \<and> rat_of (temp (main (transformWeather paris_payload))) = 19
   \<and> rat_of (speed (wind (transformWeather paris_payload))) = 3
   \<and> rat_of (speed (wind (transformWeather
        (paris_payload\<lparr>current := (current paris_payload)\<lparr>wind_kph := number_of (234 / 10)\<rparr>\<rparr>))))
      = 6
   \<and> fst (getWeatherData paris_found example_env ''Paris'' example_world)
     = Inr (Weather (transformWeather paris_payload))
   \<and> fetched (snd (getWeatherData paris_found example_env ''Paris'' example_world))
     = [''https://api.weatherapi.com/v1/current.json?key=k&q=paris&aqi=no'']
   \<and> fst (getWeatherData always_aborted example_env ''Paris''
        (snd (getWeatherData paris_found example_env ''Paris'' example_world)))
     = Inr (Weather (transformWeather paris_payload))
   \<and> weather_entries_built example_world
   \<and> weather_entries_built (snd (getWeatherData paris_found example_env ''Paris'' example_world))"
proof -
  let ?windy = "paris_payload\<lparr>current := (current paris_payload)\<lparr>wind_kph := number_of (234 / 10)\<rparr>\<rparr>"
  have vals: "temp_c (current paris_payload) = number_of (186 / 10)
      \<and> wind_kph (current paris_payload) = number_of (108 / 10)"
    by (simp add: paris_payload_def)
  have windy: "wind_kph (current ?windy) = number_of (234 / 10)"
    by simp
  have p: "temp_c (current paris_payload) = number_of (186 / 10)"
    "feelslike_c (current paris_payload) = number_of (184 / 10)"
    "wind_kph (current paris_payload) = number_of (108 / 10)"
    "pressure_mb (current paris_payload) = number_of 1015"
    "current_humidity (current paris_payload) = number_of 60"
    "wind_degree (current paris_payload) = number_of 200"
    by (simp_all add: paris_payload_def)
  have fields: "main (transformWeather paris_payload)
     = \<lparr>temp = number_of 19, feels_like = number_of 18, temp_min = number_of 19,
        temp_max = number_of 19, pressure = number_of 1015, humidity = number_of 60\<rparr>
   \<and> wind (transformWeather paris_payload) = \<lparr>speed = number_of 3, deg = number_of 200\<rparr>"
    unfolding transformWeather_def p Math_round_examples by simp
  have whole: "rat_of (number_of 19) = 19" "rat_of (number_of 3) = 3" "rat_of (number_of 6) = 6"
    by (simp_all add: rat_of_number_of)
  have runs: "fst (getWeatherData paris_found example_env ''Paris'' example_world)
     = Inr (Weather (transformWeather paris_payload))
   \<and> fetched (snd (getWeatherData paris_found example_env ''Paris'' example_world))
     = [''https://api.weatherapi.com/v1/current.json?key=k&q=paris&aqi=no'']
   \<and> fst (getWeatherData always_aborted example_env ''Paris''
        (snd (getWeatherData paris_found example_env ''Paris'' example_world)))
     = Inr (Weather (transformWeather paris_payload))"
    by (simp add: getWeatherData_def validateApiKey_def platform_defs api_key_text_def
        current_url_def BASE_URL_def fetchApi_def fetch_loop.simps example_defs Let_def
        cache_get_def cache_set_def map_get_def map_delete_def fresh_def isCacheValid_def
        CACHE_DURATION_def)
  have cold: "cache (weatherCache example_world) = []"
    by (simp add: example_world_def new_LRUCache_def)
  have paris: "rat_of (temp (main (transformWeather paris_payload))) = 19
      \<and> rat_of (speed (wind (transformWeather paris_payload))) = 3"
    using fields whole by simp
  have "speed (wind (transformWeather ?windy)) = number_of 6"
    using weather_fields_rounded [where d = ?windy and x = "number_of 0" and a = "number_of 0"
        and b = "number_of 0" and q = 0 and net = paris_found
        and e = example_env and cityname = "''Paris''" and w = example_world
        and r = "Weather (transformWeather paris_payload)"
        and netF = forecast_aborted and netS = one_city] windy
    by blast
  then have six: "rat_of (speed (wind (transformWeather ?windy))) = 6"
    by (simp only: whole)
  show ?thesis
    using weather_fields_rounded [where d = paris_payload and x = "number_of 0"
        and a = "number_of 0" and b = "number_of 0" and q = 0 and net = paris_found
        and e = example_env and cityname = "''Paris''" and w = example_world
        and r = "Weather (transformWeather paris_payload)"
        and netF = forecast_aborted and netS = one_city] vals fields runs cold paris six
    by blast
qed

end
